theory Spec2Isabelle
  imports Complex_Main
begin

section \<open>The speed plugin of the go-to behaviour\<close>

text \<open>
  A shallow embedding of \<^verbatim>\<open>goto_plugin_speed::Plugin\<close>
  (\<^verbatim>\<open>src/goto_plugin_speed.cpp\<close>).

  Numbers: a finite \<^verbatim>\<open>float\<close> or \<^verbatim>\<open>double\<close> is the real number it stands for.
  Every operation of the code that rounds is followed by the rounding of its format,
  to the nearest representable number with ties to even: the difference, the quotient
  and the products in \<^verbatim>\<open>double\<close>, the square root of the norm, and the conversion
  of a \<^verbatim>\<open>double\<close> to \<^verbatim>\<open>float\<close> where the code passes one for the other.
  Comparisons, negation, the absolute value and the conversion of a \<^verbatim>\<open>float\<close> to
  \<^verbatim>\<open>double\<close> are exact. The exponent is bounded below (small results are rounded
  on the grid of the subnormal numbers) but not above: a result that the format would
  turn into an infinity is a large real here, which compares with every finite number
  as the infinity does; arithmetic on infinities, NaN and the sign of a zero are not
  modelled. With finite inputs and a maximum speed that is not negative the limiter
  meets an infinity only in the conversion to \<^verbatim>\<open>float\<close> of the clamp, where the
  comparison that follows replaces it.

  A quotient whose divisor is zero is the error \<open>DivisionByZero\<close>, so that a
  division by zero is a branch one can see.
\<close>

subsection \<open>Rounding to a binary format\<close>

definition pow2 :: "int \<Rightarrow> real" where
  "pow2 e = 2 powr of_int e"

text \<open>The nearest integer, the even one of two that are equally near.\<close>

definition round_even :: "real \<Rightarrow> int" where
  "round_even r =
     (let f = \<lfloor>r\<rfloor>; d = r - of_int f
      in if d < 1 / 2 then f
         else if 1 / 2 < d then f + 1
         else if even f then f else f + 1)"

text \<open>
  The exponent of the binade of \<open>x\<close>, not below the least exponent \<open>emin\<close> of the
  normal numbers.
\<close>

definition expo :: "int \<Rightarrow> real \<Rightarrow> int" where
  "expo emin x = max \<lfloor>log 2 \<bar>x\<bar>\<rfloor> emin"

text \<open>
  Rounding to \<open>p\<close> significant bits: the magnitude is rounded to a multiple of the
  unit in the last place of its binade, the sign is kept.
\<close>

definition fround :: "nat \<Rightarrow> int \<Rightarrow> real \<Rightarrow> real" where
  "fround p emin x =
     (if x = 0 then 0
      else (let u = pow2 (expo emin x - (int p - 1))
            in sgn x * (of_int (round_even (\<bar>x\<bar> / u)) * u)))"

text \<open>binary32 and binary64.\<close>

definition to_float :: "real \<Rightarrow> real" where
  "to_float = fround 24 (- 126)"

definition to_double :: "real \<Rightarrow> real" where
  "to_double = fround 53 (- 1022)"

subsection \<open>Eigen::Vector3d\<close>

record vec3 =
  vec_x :: real
  vec_y :: real
  vec_z :: real

definition Vector3d :: "real \<Rightarrow> real \<Rightarrow> real \<Rightarrow> vec3" where
  "Vector3d a b c = \<lparr>vec_x = a, vec_y = b, vec_z = c\<rparr>"

text \<open>\<^verbatim>\<open>v[j]\<close>; the code only uses \<open>j = 0, 1, 2\<close>.\<close>

definition coeff :: "vec3 \<Rightarrow> nat \<Rightarrow> real" where
  "coeff v j = (if j = 0 then vec_x v else if j = 1 then vec_y v else vec_z v)"

text \<open>\<^verbatim>\<open>a - b\<close> and \<^verbatim>\<open>v *= k\<close>: one rounded operation for each coefficient.\<close>

definition vsub :: "vec3 \<Rightarrow> vec3 \<Rightarrow> vec3" where
  "vsub a b = Vector3d (to_double (vec_x a - vec_x b)) (to_double (vec_y a - vec_y b))
                       (to_double (vec_z a - vec_z b))"

definition scale :: "real \<Rightarrow> vec3 \<Rightarrow> vec3" where
  "scale k v = Vector3d (to_double (k * vec_x v)) (to_double (k * vec_y v))
                        (to_double (k * vec_z v))"

text \<open>
  \<^verbatim>\<open>v.head(2).norm()\<close>: the square root of the sum of the two squares, each of the
  four operations rounded.
\<close>

definition head2_norm :: "vec3 \<Rightarrow> real" where
  "head2_norm v =
     to_double (sqrt (to_double (to_double (vec_x v * vec_x v) + to_double (vec_y v * vec_y v))))"

subsection \<open>The plugin object and what it reads from its collaborators\<close>

text \<open>
  The members of the plugin that \<^verbatim>\<open>onExecute\<close> reads. \<^verbatim>\<open>onAccepted\<close> sets the
  first three, \<^verbatim>\<open>ownInit\<close> the last.
\<close>

record plugin =
  desired_position :: vec3
  desired_speed :: real
  ignore_yaw :: bool
  proportional_speed_limit :: bool

definition Plugin :: "vec3 \<Rightarrow> real \<Rightarrow> bool \<Rightarrow> bool \<Rightarrow> plugin" where
  "Plugin pos spd ign prop =
     \<lparr>desired_position = pos, desired_speed = spd, ignore_yaw = ign,
      proportional_speed_limit = prop\<rparr>"

text \<open>
  One iteration of the loop of \<^verbatim>\<open>onExecute\<close> reads the following from the base
  class, the goal handle and the motion handler. They change between iterations
  (another thread updates them), so an execution is run against the list of what each
  iteration observes.
\<close>

record tick =
  checkGoalCondition :: bool
  is_canceling :: bool
  actual_position :: vec3
  getActualYaw :: real
  send_ok :: bool
  actual_distance_to_goal :: real
  actual_speed :: real

text \<open>
  \<open>send_ok\<close> is what \<^verbatim>\<open>sendSpeedCommandWithYawAngle\<close> returns in this iteration:
  whether the motion handler accepted the command.
\<close>

definition Tick :: "bool \<Rightarrow> bool \<Rightarrow> vec3 \<Rightarrow> real \<Rightarrow> bool \<Rightarrow> real \<Rightarrow> real \<Rightarrow> tick" where
  "Tick reached canceling pos yaw ok dst spd =
     \<lparr>checkGoalCondition = reached, is_canceling = canceling, actual_position = pos,
      getActualYaw = yaw, send_ok = ok, actual_distance_to_goal = dst, actual_speed = spd\<rparr>"

datatype error = DivisionByZero

text \<open>
  What an execution does to its collaborators, in order. A speed command and the
  feedback carry the values that the plugin passes; what the collaborators do with
  them is theirs.
\<close>

datatype event =
    SendSpeedCommandWithYawAngle real real real real
  | PublishFeedback real real
  | Sleep
  | Canceled bool
  | Succeed bool
  | LogWarn string
  | SendHover

datatype outcome = Returned bool "event list" | Fault error "event list"

subsection \<open>The goal\<close>

record goal =
  target_position :: vec3
  max_speed :: real
  ignore_pose_yaw :: bool

text \<open>
  \<^verbatim>\<open>onAccepted\<close>: the requested speed replaces the configured one only when it is not
  zero. (The flag \<^verbatim>\<open>distance_measured_\<close> it resets belongs to the base class.)
\<close>

definition onAccepted :: "plugin \<Rightarrow> goal \<Rightarrow> plugin" where
  "onAccepted p g =
     p\<lparr>desired_position := target_position g,
       desired_speed := (if max_speed g \<noteq> 0 then max_speed g else desired_speed p),
       ignore_yaw := ignore_pose_yaw g\<rparr>"

subsection \<open>Heading\<close>

text \<open>The angle of the point \<open>(x, y)\<close>, as the C library defines \<^verbatim>\<open>atan2(y, x)\<close>.\<close>

definition atan2 :: "real \<Rightarrow> real \<Rightarrow> real" where
  "atan2 y x =
     (if 0 < x then arctan (y / x)
      else if x < 0 \<and> 0 \<le> y then arctan (y / x) + pi
      else if x < 0 then arctan (y / x) - pi
      else if 0 < y then pi / 2
      else if y < 0 then - (pi / 2)
      else 0)"

text \<open>
  \<^verbatim>\<open>atan2f\<close> takes and returns \<^verbatim>\<open>float\<close>: its result is taken to be the angle
  rounded to single precision.
\<close>

definition atan2f :: "real \<Rightarrow> real \<Rightarrow> real" where
  "atan2f y x = to_float (atan2 y x)"

text \<open>The two \<^verbatim>\<open>double\<close> coefficients are passed where \<^verbatim>\<open>float\<close> is expected.\<close>

definition getDesiredYawAngle :: "vec3 \<Rightarrow> real" where
  "getDesiredYawAngle position_error =
     atan2f (to_float (vec_y position_error)) (to_float (vec_x position_error))"

text \<open>
  Lines 109 to 122 of \<^verbatim>\<open>onExecute\<close>: the first assignment to \<^verbatim>\<open>desired_yaw\<close>,
  then the three-way \<^verbatim>\<open>if\<close> that assigns it again.
\<close>

definition select_yaw :: "plugin \<Rightarrow> tick \<Rightarrow> vec3 \<Rightarrow> real" where
  "select_yaw p t speed_setpoint =
     (let desired_yaw =
            (if ignore_yaw p then getActualYaw t else getDesiredYawAngle speed_setpoint)
      in if ignore_yaw p then getActualYaw t
         else if \<not> ignore_yaw p \<and> head2_norm speed_setpoint < 2 then getActualYaw t
         else getDesiredYawAngle speed_setpoint)"

subsection \<open>Delimiting the speed\<close>

text \<open>
  \<^verbatim>\<open>float getValidSpeed(float speed)\<close> is called with a \<^verbatim>\<open>double\<close> coefficient,
  which the call converts to \<^verbatim>\<open>float\<close>; the \<^verbatim>\<open>float\<close> it returns is stored in
  the coefficient as it is.
\<close>

definition getValidSpeed :: "plugin \<Rightarrow> real \<Rightarrow> real" where
  "getValidSpeed p x =
     (let speed = to_float x
      in if \<bar>speed\<bar> > desired_speed p
         then (if speed < 0 then - desired_speed p else desired_speed p)
         else speed)"

definition fdiv :: "real \<Rightarrow> real \<Rightarrow> error + real" where
  "fdiv a b = (if b = 0 then Inl DivisionByZero else Inr (to_double (a / b)))"

text \<open>The body of the \<^verbatim>\<open>for\<close> loop of the proportional branch, for one \<open>j\<close>.\<close>

definition limit_axis :: "plugin \<Rightarrow> nat \<Rightarrow> vec3 \<Rightarrow> error + vec3" where
  "limit_axis p j speed =
     (if desired_speed p = 0 \<or> coeff speed j = 0 then Inr speed
      else if coeff speed j > desired_speed p \<or> coeff speed j < - desired_speed p
      then (case fdiv (desired_speed p) (coeff speed j) of
              Inl e \<Rightarrow> Inl e
            | Inr q \<Rightarrow> Inr (scale \<bar>q\<bar> speed))
      else Inr speed)"

text \<open>\<^verbatim>\<open>for (short j = 0; j < 3; j++)\<close>, entered at \<open>j\<close>.\<close>

function proportional_loop :: "plugin \<Rightarrow> nat \<Rightarrow> vec3 \<Rightarrow> error + vec3" where
  "proportional_loop p j speed =
     (if j < 3
      then (case limit_axis p j speed of
              Inl e \<Rightarrow> Inl e
            | Inr speed' \<Rightarrow> proportional_loop p (Suc j) speed')
      else Inr speed)"
  by pat_completeness auto
termination
  by (relation "measure (\<lambda>(p, j, speed). 3 - j)") auto

declare proportional_loop.simps [simp del]

text \<open>Lines 124 to 144: the copy of the setpoint and the two ways of delimiting it.\<close>

definition delimit_speed :: "plugin \<Rightarrow> vec3 \<Rightarrow> error + vec3" where
  "delimit_speed p speed_setpoint =
     (let speed = Vector3d (vec_x speed_setpoint) (vec_y speed_setpoint) (vec_z speed_setpoint)
      in if proportional_speed_limit p then proportional_loop p 0 speed
         else Inr (Vector3d (getValidSpeed p (vec_x speed))
                            (getValidSpeed p (vec_y speed))
                            (getValidSpeed p (vec_z speed))))"

subsection \<open>The execution loop\<close>

text \<open>
  The body of the \<^verbatim>\<open>while\<close> loop after the cancellation test (lines 105 to 155):
  the events of one iteration that goes on. The value returned by the motion handler
  is dropped by the code, so \<open>send_ok\<close> is not read.
\<close>

definition control_tick :: "plugin \<Rightarrow> tick \<Rightarrow> error + event list" where
  "control_tick p t =
     (let speed_setpoint = vsub (desired_position p) (actual_position t);
          desired_yaw = select_yaw p t speed_setpoint
      in case delimit_speed p speed_setpoint of
           Inl e \<Rightarrow> Inl e
         | Inr speed \<Rightarrow>
             Inr [SendSpeedCommandWithYawAngle (vec_x speed) (vec_y speed) (vec_z speed) desired_yaw,
                  PublishFeedback (actual_distance_to_goal t) (actual_speed t),
                  Sleep])"

text \<open>
  \<^verbatim>\<open>while (!checkGoalCondition()) { if (is_canceling()) {...; return false;} ... }\<close>
  and what follows the loop. The list holds the observations of the iterations to
  come, \<open>tr\<close> the events so far. \<open>None\<close>: the loop is still running when the
  observations end. A division by zero in the limiter would end the execution as a
  \<open>Fault\<close>. The local \<^verbatim>\<open>desired_yaw\<close> that line 91 initialises is assigned again
  in every iteration before it is used, so the loop carries no state but the events.
\<close>

fun onExecute_loop :: "plugin \<Rightarrow> tick list \<Rightarrow> event list \<Rightarrow> outcome option" where
  "onExecute_loop p [] tr = None"
| "onExecute_loop p (t # ts) tr =
     (if \<not> checkGoalCondition t
      then (if is_canceling t
            then Some (Returned False (tr @ [Canceled False, LogWarn ''Goal canceled'', SendHover]))
            else (case control_tick p t of
                    Inl e \<Rightarrow> Some (Fault e tr)
                  | Inr evs \<Rightarrow> onExecute_loop p ts (tr @ evs)))
      else Some (Returned True (tr @ [Succeed True, SendHover])))"

definition onExecute :: "plugin \<Rightarrow> tick list \<Rightarrow> outcome option" where
  "onExecute p ts = onExecute_loop p ts []"

section \<open>Properties of the rounding\<close>

text \<open>
  Rounding keeps zero and the sign, is monotone, leaves a representable number as it
  is, and so never carries a number across a representable one.
\<close>

lemma pow2_pos [simp]: "0 < pow2 e"
  by (simp add: pow2_def)

lemma pow2_mono: "a \<le> b \<Longrightarrow> pow2 a \<le> pow2 b"
  by (simp add: pow2_def)

lemma pow2_add: "pow2 (a + b) = pow2 a * pow2 b"
  by (simp add: pow2_def powr_add)

lemma pow2_nat: "pow2 (int n) = 2 ^ n"
  by (simp add: pow2_def powr_realpow)

lemma pow2_Suc: "pow2 (e + 1) = 2 * pow2 e"
  by (simp add: pow2_def powr_add)

lemma pow2_nz [simp]: "pow2 e \<noteq> 0"
  by (simp add: pow2_def)

lemma pow2_nonneg [simp]: "0 \<le> pow2 e"
  by (simp add: pow2_def)

lemma div_pow2_mono: "a \<le> b \<Longrightarrow> a / pow2 e \<le> b / pow2 e"
  by (rule divide_right_mono) simp_all

lemma pow2_div_nat: "pow2 a / pow2 (a - int k) = 2 ^ k"
  using pow2_add [of "a - int k" "int k"] by (simp add: pow2_nat)

lemma round_even_of_int [simp]: "round_even (of_int n) = n"
  by (simp add: round_even_def)

lemma round_even_bounds: "of_int \<lfloor>r\<rfloor> \<le> (of_int (round_even r) :: real)"
  "round_even r \<le> \<lfloor>r\<rfloor> + 1"
  by (simp_all add: round_even_def Let_def)

lemma round_even_mono: 
  assumes "r \<le> s" shows "round_even r \<le> round_even s"
proof (cases "\<lfloor>r\<rfloor> = \<lfloor>s\<rfloor>")
  case True
  with assms show ?thesis by (simp add: round_even_def Let_def)
next
  case False
  with assms have "\<lfloor>r\<rfloor> < \<lfloor>s\<rfloor>" using floor_mono [OF assms] by linarith
  then have "round_even r \<le> \<lfloor>s\<rfloor>" using round_even_bounds(2) [of r] by linarith
  also have "\<dots> \<le> round_even s" using round_even_bounds(1) [of s] by simp
  finally show ?thesis .
qed

lemma round_even_0 [simp]: "round_even 0 = 0"
  using round_even_of_int [of 0] by simp

lemma round_even_nonneg: "0 \<le> r \<Longrightarrow> 0 \<le> round_even r"
  using round_even_mono [of 0 r] by simp

text \<open>The exponent of a number is that of the binade it lies in.\<close>

lemma expo_eqI:
  assumes "x \<noteq> 0" "emin \<le> e" "\<bar>x\<bar> < pow2 (e + 1)" "pow2 e \<le> \<bar>x\<bar> \<or> e = emin"
  shows "expo emin x = e"
proof -
  let ?l = "\<lfloor>log 2 \<bar>x\<bar>\<rfloor>"
  from assms(1) have pos: "0 < \<bar>x\<bar>" by simp
  have l: "pow2 ?l \<le> \<bar>x\<bar>" "\<bar>x\<bar> < pow2 (?l + 1)"
    using floor_log_eq_powr_iff [OF pos, of 2 ?l] by (simp_all add: pow2_def)
  have le: "?l \<le> e"
  proof (rule ccontr)
    assume "\<not> ?l \<le> e"
    then have "e + 1 \<le> ?l" by simp
    from pow2_mono [OF this] l(1) assms(3) show False by linarith
  qed
  show ?thesis
  proof (cases "pow2 e \<le> \<bar>x\<bar>")
    case True
    have "e \<le> ?l"
    proof (rule ccontr)
      assume "\<not> e \<le> ?l"
      then have "?l + 1 \<le> e" by simp
      from pow2_mono [OF this] l(2) True show False by linarith
    qed
    with le assms(2) show ?thesis by (simp add: expo_def)
  next
    case False
    with assms(4) have "e = emin" by simp
    with le show ?thesis by (simp add: expo_def)
  qed
qed

lemma expo_props:
  assumes "x \<noteq> 0"
  shows "emin \<le> expo emin x" "\<bar>x\<bar> < pow2 (expo emin x + 1)"
     "pow2 (expo emin x) \<le> \<bar>x\<bar> \<or> expo emin x = emin"
proof -
  let ?l = "\<lfloor>log 2 \<bar>x\<bar>\<rfloor>"
  from assms have pos: "0 < \<bar>x\<bar>" by simp
  have l: "pow2 ?l \<le> \<bar>x\<bar>" "\<bar>x\<bar> < pow2 (?l + 1)"
    using floor_log_eq_powr_iff [OF pos, of 2 ?l] by (simp_all add: pow2_def)
  show "emin \<le> expo emin x" by (simp add: expo_def)
  have "?l + 1 \<le> expo emin x + 1" by (simp add: expo_def)
  from pow2_mono [OF this] l(2) show "\<bar>x\<bar> < pow2 (expo emin x + 1)" by linarith
  show "pow2 (expo emin x) \<le> \<bar>x\<bar> \<or> expo emin x = emin"
    using l(1) by (auto simp: expo_def max_def)
qed

text \<open>The rounding in a binade, closed above.\<close>

lemma fround_binade:
  assumes p: "0 < p" and e: "emin \<le> e" and up: "\<bar>x\<bar> \<le> pow2 (e + 1)"
    and lo: "pow2 e \<le> \<bar>x\<bar> \<or> e = emin"
  shows "fround p emin x
         = sgn x * (of_int (round_even (\<bar>x\<bar> / pow2 (e - (int p - 1)))) * pow2 (e - (int p - 1)))"
proof (cases "x = 0")
  case True
  then show ?thesis by (simp add: fround_def)
next
  case nz: False
  show ?thesis
  proof (cases "\<bar>x\<bar> < pow2 (e + 1)")
    case True
    with nz e lo have "expo emin x = e" by (intro expo_eqI) auto
    with nz show ?thesis by (simp add: fround_def Let_def)
  next
    case False
    with up have top: "\<bar>x\<bar> = pow2 (e + 1)" by simp
    have "pow2 (e + 1) < pow2 (e + 1 + 1)" by (simp add: pow2_def)
    with nz e top have ex: "expo emin x = e + 1" by (intro expo_eqI) auto
    obtain n where n: "p = Suc n" using p by (cases p) auto
    have a: "pow2 (e + 1) / pow2 (e + 1 - (int p - 1)) = of_int (2 ^ n)"
      using pow2_div_nat [of "e + 1" n] by (simp add: n)
    have b: "pow2 (e + 1) / pow2 (e - (int p - 1)) = of_int (2 ^ p)"
      using pow2_div_nat [of "e + 1" p] by (simp add: algebra_simps)
    have "fround p emin x = sgn x * (of_int (2 ^ n) * pow2 (e + 1 - (int p - 1)))"
      using nz ex top a by (simp add: fround_def Let_def del: of_int_power)
    also have "of_int (2 ^ n) * pow2 (e + 1 - (int p - 1)) = pow2 (e + 1)"
      using a by (simp add: field_simps del: of_int_power)
    also have "pow2 (e + 1) = of_int (2 ^ p) * pow2 (e - (int p - 1))"
      using b by (simp add: field_simps del: of_int_power)
    finally show ?thesis using top b by (simp del: of_int_power)
  qed
qed


lemma fround_0 [simp]: "fround p emin 0 = 0"
  by (simp add: fround_def)

lemma expo_minus [simp]: "expo emin (- x) = expo emin x"
  by (simp add: expo_def)

lemma fround_minus: "fround p emin (- x) = - fround p emin x"
  by (simp add: fround_def Let_def)

lemma fround_nonneg:
  assumes "0 \<le> x" shows "0 \<le> fround p emin x"
proof (cases "x = 0")
  case True
  then show ?thesis by simp
next
  case False
  let ?u = "pow2 (expo emin x - (int p - 1))"
  from assms have "0 \<le> x / ?u" by simp
  then have "0 \<le> round_even (x / ?u)" by (rule round_even_nonneg)
  then have "0 \<le> (of_int (round_even (x / ?u)) :: real) * ?u" by simp
  with False assms show ?thesis by (simp add: fround_def Let_def)
qed

text \<open>In a binade the result stays within the binade's ends.\<close>

lemma fround_upper:
  assumes "0 < p" "emin \<le> e" "0 \<le> x" "x \<le> pow2 (e + 1)" "pow2 e \<le> x \<or> e = emin"
  shows "fround p emin x \<le> pow2 (e + 1)"
proof (cases "x = 0")
  case True
  then show ?thesis using pow2_pos [of "e + 1"] by (simp del: pow2_pos)
next
  case False
  let ?u = "pow2 (e - (int p - 1))"
  from False assms(3) have pos: "0 < x" by simp
  have fr: "fround p emin x = of_int (round_even (x / ?u)) * ?u"
    using fround_binade [of p emin e x] assms pos by simp
  have top: "pow2 (e + 1) / ?u = of_int (2 ^ p)"
    using pow2_div_nat [of "e + 1" p] by (simp add: algebra_simps)
  have "x / ?u \<le> pow2 (e + 1) / ?u"
    using assms(4) by (rule div_pow2_mono)
  then have "round_even (x / ?u) \<le> round_even (of_int (2 ^ p))"
    unfolding top by (rule round_even_mono)
  then have "round_even (x / ?u) \<le> 2 ^ p" by (simp del: of_int_power)
  then have "(of_int (round_even (x / ?u)) :: real) \<le> of_int (2 ^ p)"
    by (simp only: of_int_le_iff)
  then have "of_int (round_even (x / ?u)) * ?u \<le> of_int (2 ^ p) * ?u"
    by (rule mult_right_mono) simp
  also have "of_int (2 ^ p) * ?u = pow2 (e + 1)"
    using top by (simp add: field_simps del: of_int_power)
  finally show ?thesis by (simp only: fr)
qed

lemma fround_lower:
  assumes "0 < p" "emin \<le> e" "x \<le> pow2 (e + 1)" "pow2 e \<le> x"
  shows "pow2 e \<le> fround p emin x"
proof -
  let ?u = "pow2 (e - (int p - 1))"
  obtain n where n: "p = Suc n" using assms(1) by (cases p) auto
  from assms(4) have pos: "0 < x" using pow2_pos [of e] by linarith
  have fr: "fround p emin x = of_int (round_even (x / ?u)) * ?u"
    using fround_binade [of p emin e x] assms pos by simp
  have bot: "pow2 e / ?u = of_int (2 ^ n)"
    using pow2_div_nat [of e n] by (simp add: n)
  have "pow2 e / ?u \<le> x / ?u"
    using assms(4) by (rule div_pow2_mono)
  then have "round_even (of_int (2 ^ n)) \<le> round_even (x / ?u)"
    unfolding bot by (rule round_even_mono)
  then have "2 ^ n \<le> round_even (x / ?u)" by (simp del: of_int_power)
  then have "(of_int (2 ^ n) :: real) \<le> of_int (round_even (x / ?u))"
    by (simp only: of_int_le_iff)
  then have "of_int (2 ^ n) * ?u \<le> of_int (round_even (x / ?u)) * ?u"
    by (rule mult_right_mono) simp
  moreover have "of_int (2 ^ n) * ?u = pow2 e"
    using bot by (simp add: field_simps del: of_int_power)
  ultimately have "pow2 e \<le> of_int (round_even (x / ?u)) * ?u" by (simp only:)
  then show ?thesis by (simp only: fr)
qed

lemma fround_mono_pos:
  assumes p: "0 < p" and "0 < x" "x \<le> y"
  shows "fround p emin x \<le> fround p emin y"
proof -
  let ?e = "expo emin y"
  let ?u = "pow2 (?e - (int p - 1))"
  from assms have y: "y \<noteq> 0" "0 < y" by simp_all
  note ey = expo_props [OF y(1), of emin]
  from ey(2) y(2) have yup: "y \<le> pow2 (?e + 1)" by simp
  show ?thesis
  proof (cases "pow2 ?e \<le> x \<or> ?e = emin")
    case True
    have "fround p emin x = of_int (round_even (x / ?u)) * ?u"
      using fround_binade [of p emin ?e x] p ey(1) yup assms(2,3) True by simp
    moreover have "fround p emin y = of_int (round_even (y / ?u)) * ?u"
      using fround_binade [of p emin ?e y] p ey yup y(2) by simp
    moreover have "round_even (x / ?u) \<le> round_even (y / ?u)"
      using assms(3) by (intro round_even_mono div_pow2_mono)
    ultimately show ?thesis by (simp add: mult_right_mono)
  next
    case False
    then have low: "x < pow2 ?e" "emin < ?e" using ey(1) by auto
    let ?d = "expo emin x"
    from assms(2) have x: "x \<noteq> 0" by simp
    note ex = expo_props [OF x, of emin]
    have "?d < ?e"
    proof (rule ccontr)
      assume "\<not> ?d < ?e"
      then have ge: "?e \<le> ?d" by simp
      with low(2) have "?d \<noteq> emin" by simp
      with ex(3) assms(2) have "pow2 ?d \<le> x" by simp
      with pow2_mono [OF ge] low(1) show False by linarith
    qed
    then have "?d + 1 \<le> ?e" by simp
    from ex(2) assms(2) have xup: "x \<le> pow2 (?d + 1)" by simp
    have "fround p emin x \<le> pow2 (?d + 1)"
      using fround_upper [of p emin ?d x] p ex assms(2) xup by simp
    also have "\<dots> \<le> pow2 ?e" using \<open>?d + 1 \<le> ?e\<close> by (rule pow2_mono)
    also have "\<dots> \<le> fround p emin y"
    proof -
      from low(2) ey(3) y(2) have "pow2 ?e \<le> y" by simp
      then show ?thesis using fround_lower [of p emin ?e y] p ey(1) yup by simp
    qed
    finally show ?thesis .
  qed
qed

lemma fround_mono:
  assumes "0 < p" "x \<le> y"
  shows "fround p emin x \<le> fround p emin y"
proof -
  consider "0 < x" | "x \<le> 0" "0 \<le> y" | "y < 0" by linarith
  then show ?thesis
  proof cases
    case 1
    with assms show ?thesis by (simp add: fround_mono_pos)
  next
    case 2
    have "fround p emin x = - fround p emin (- x)" by (simp add: fround_minus)
    also have "\<dots> \<le> 0" using 2(1) by (simp add: fround_nonneg)
    also have "\<dots> \<le> fround p emin y" using 2(2) by (simp add: fround_nonneg)
    finally show ?thesis .
  next
    case 3
    with assms have "fround p emin (- y) \<le> fround p emin (- x)"
      by (intro fround_mono_pos) simp_all
    then show ?thesis by (simp add: fround_minus)
  qed
qed

lemma fround_idem:
  assumes p: "0 < p"
  shows "fround p emin (fround p emin x) = fround p emin x"
proof -
  have pos: "fround p emin (fround p emin x) = fround p emin x" if x: "0 < x" for x
  proof -
    let ?e = "expo emin x"
    let ?u = "pow2 (?e - (int p - 1))"
    let ?y = "fround p emin x"
    from x have nz: "x \<noteq> 0" by simp
    note ex = expo_props [OF nz, of emin]
    from ex(2) x have xup: "x \<le> pow2 (?e + 1)" by simp
    have fr: "?y = of_int (round_even (x / ?u)) * ?u"
      using fround_binade [of p emin ?e x] p ex xup x by simp
    have y0: "0 \<le> ?y" using x by (simp add: fround_nonneg)
    have yup: "?y \<le> pow2 (?e + 1)"
      using fround_upper [of p emin ?e x] p ex xup x by simp
    have ylo: "pow2 ?e \<le> ?y \<or> ?e = emin"
    proof (cases "pow2 ?e \<le> x")
      case True
      then show ?thesis using fround_lower [of p emin ?e x] p ex(1) xup by simp
    next
      case False
      with ex(3) x show ?thesis by simp
    qed
    have "fround p emin ?y = sgn ?y * (of_int (round_even (\<bar>?y\<bar> / ?u)) * ?u)"
      using fround_binade [of p emin ?e ?y] p ex(1) yup ylo y0 by simp
    also have "\<bar>?y\<bar> / ?u = of_int (round_even (x / ?u))"
      using y0 fr by simp
    also have "sgn ?y * (of_int (round_even (of_int (round_even (x / ?u)))) * ?u) = sgn ?y * ?y"
      using fr by simp
    also have "sgn ?y * ?y = ?y" using y0 by (simp add: sgn_if)
    finally show ?thesis .
  qed
  consider "0 < x" | "x = 0" | "x < 0" by linarith
  then show ?thesis
  proof cases
    case 1 then show ?thesis by (rule pos)
  next
    case 2 then show ?thesis by simp
  next
    case 3
    then have "fround p emin (fround p emin (- x)) = fround p emin (- x)" by (intro pos) simp
    then show ?thesis by (simp add: fround_minus)
  qed
qed

lemma fround_abs_le:
  assumes "0 < p" "\<bar>x\<bar> \<le> \<bar>d\<bar>" "fround p emin d = d"
  shows "\<bar>fround p emin x\<bar> \<le> \<bar>d\<bar>"
proof -
  have ad: "fround p emin \<bar>d\<bar> = \<bar>d\<bar>"
    using assms(3) by (simp add: abs_if fround_minus)
  from assms(2) have "x \<le> \<bar>d\<bar>" "- \<bar>d\<bar> \<le> x" by linarith+
  then have "fround p emin x \<le> fround p emin \<bar>d\<bar>" "fround p emin (- \<bar>d\<bar>) \<le> fround p emin x"
    using assms(1) by (simp_all add: fround_mono)
  then show ?thesis using ad by (simp add: fround_minus abs_le_iff)
qed


lemma fround_of_int_pos:
  assumes p: "0 < p" and emin: "emin \<le> 0" and n: "0 < n" "n \<le> 2 ^ p"
  shows "fround p emin (of_int n) = of_int n"
proof (cases "n = 2 ^ p")
  case True
  obtain k where k: "p = Suc k" using p by (cases p) auto
  have top: "(of_int n :: real) = pow2 (int k + 1)"
    using True pow2_nat [of "Suc k"] by (simp add: k add.commute)
  have lo: "pow2 (int k) \<le> of_int n"
    unfolding top by (rule pow2_mono) simp
  have "fround p emin (of_int n)
        = sgn (of_int n :: real) * (of_int (round_even (\<bar>of_int n\<bar> / pow2 (int k - (int p - 1))))
            * pow2 (int k - (int p - 1)))"
    using emin lo n(1) top by (intro fround_binade [OF p]) simp_all
  also have "int k - (int p - 1) = 0" by (simp add: k)
  finally show ?thesis using n(1) round_even_of_int [of n]
    by (simp add: pow2_def del: round_even_of_int)
next
  case False
  with n have lt: "n < 2 ^ p" by simp
  let ?x = "of_int n :: real"
  let ?e = "expo emin ?x"
  from n(1) have nz: "?x \<noteq> 0" and pos: "0 < ?x" by simp_all
  note ex = expo_props [OF nz, of emin]
  have "pow2 0 \<le> \<bar>?x\<bar>" using n(1) by (simp add: pow2_def)
  have e0: "0 \<le> ?e"
  proof (rule ccontr)
    assume "\<not> 0 \<le> ?e"
    then have "?e + 1 \<le> 0" by simp
    from pow2_mono [OF this] ex(2) \<open>pow2 0 \<le> \<bar>?x\<bar>\<close> show False by linarith
  qed
  have elt: "?e < int p"
  proof (rule ccontr)
    assume "\<not> ?e < int p"
    then have ge: "int p \<le> ?e" by simp
    with emin p have "?e \<noteq> emin" by simp
    with ex(3) have "pow2 ?e \<le> ?x" using pos by simp
    with pow2_mono [OF ge] have "pow2 (int p) \<le> ?x" by linarith
    then have "(2 ^ p :: real) \<le> of_int n" by (simp add: pow2_nat)
    then have "(of_int (2 ^ p) :: real) \<le> of_int n" by simp
    then have "2 ^ p \<le> n" by (simp only: of_int_le_iff)
    with lt show False by simp
  qed
  define k where "k = nat (int p - 1 - ?e)"
  have k: "?e - (int p - 1) = - int k" using elt by (simp add: k_def)
  have u: "pow2 (?e - (int p - 1)) = 1 / 2 ^ k"
    unfolding k by (simp add: pow2_def powr_minus powr_realpow divide_simps)
  have "?x / pow2 (?e - (int p - 1)) = of_int (n * 2 ^ k)" by (simp add: u)
  then have r: "round_even (\<bar>?x\<bar> / pow2 (?e - (int p - 1))) = n * 2 ^ k"
    using pos round_even_of_int [of "n * 2 ^ k"] by (simp del: round_even_of_int of_int_mult of_int_power)
  have "fround p emin ?x = sgn ?x * (of_int (round_even (\<bar>?x\<bar> / pow2 (?e - (int p - 1))))
            * pow2 (?e - (int p - 1)))"
    using nz by (simp add: fround_def Let_def)
  also have "round_even (\<bar>?x\<bar> / pow2 (?e - (int p - 1))) = n * 2 ^ k"
    by (rule r)
  also have "sgn ?x * (of_int (n * 2 ^ k) * pow2 (?e - (int p - 1))) = ?x"
    using pos by (simp add: u)
  finally show ?thesis .
qed

lemma fround_of_int:
  assumes "0 < p" "emin \<le> 0" "\<bar>n\<bar> \<le> 2 ^ p"
  shows "fround p emin (of_int n) = of_int n"
proof -
  consider "0 < n" | "n = 0" | "n < 0" by linarith
  then show ?thesis
  proof cases
    case 1
    with assms show ?thesis by (simp add: fround_of_int_pos)
  next
    case 2
    then show ?thesis by simp
  next
    case 3
    with assms have "fround p emin (of_int (- n)) = of_int (- n)"
      by (intro fround_of_int_pos) simp_all
    then show ?thesis by (simp add: fround_minus)
  qed
qed

lemma to_double_numeral:
  "numeral k \<le> (9007199254740992 :: int) \<Longrightarrow> to_double (numeral k) = numeral k"
  using fround_of_int [of 53 "- 1022" "numeral k"] by (simp add: to_double_def)

lemma to_float_numeral:
  "numeral k \<le> (16777216 :: int) \<Longrightarrow> to_float (numeral k) = numeral k"
  using fround_of_int [of 24 "- 126" "numeral k"] by (simp add: to_float_def)

lemma to_double_simps [simp]: "to_double 0 = 0" "to_double 1 = 1" "to_double (- x) = - to_double x"
  using fround_of_int [of 53 "- 1022" 1] by (simp_all add: to_double_def fround_minus)

lemma to_float_simps [simp]: "to_float 0 = 0" "to_float 1 = 1" "to_float (- x) = - to_float x"
  using fround_of_int [of 24 "- 126" 1] by (simp_all add: to_float_def fround_minus)

lemma pow2_numeral: "pow2 (numeral k) = 2 ^ numeral k" "pow2 (- numeral k) = 1 / 2 ^ numeral k"
  "pow2 0 = 1" "pow2 1 = 2" "pow2 (- 1) = 1 / 2"
  by (simp_all add: pow2_def powr_neg_numeral powr_minus divide_simps)

text \<open>Rounding a number whose binade is known.\<close>

lemma to_double_eval:
  assumes "- 1022 \<le> e" "pow2 e \<le> \<bar>x\<bar>" "\<bar>x\<bar> < pow2 (e + 1)"
  shows "to_double x = sgn x * (of_int (round_even (\<bar>x\<bar> / pow2 (e - 52))) * pow2 (e - 52))"
  using fround_binade [of 53 "- 1022" e x] assms by (simp add: to_double_def)

lemma to_float_eval:
  assumes "- 126 \<le> e" "pow2 e \<le> \<bar>x\<bar>" "\<bar>x\<bar> < pow2 (e + 1)"
  shows "to_float x = sgn x * (of_int (round_even (\<bar>x\<bar> / pow2 (e - 23))) * pow2 (e - 23))"
  using fround_binade [of 24 "- 126" e x] assms by (simp add: to_float_def)

subsection \<open>The two formats\<close>

lemma to_double_mono: "x \<le> y \<Longrightarrow> to_double x \<le> to_double y"
  by (simp add: to_double_def fround_mono)

lemma to_double_idem [simp]: "to_double (to_double x) = to_double x"
  by (simp add: to_double_def fround_idem)

lemma to_double_nonneg: "0 \<le> x \<Longrightarrow> 0 \<le> to_double x"
  by (simp add: to_double_def fround_nonneg)

lemma to_double_nonpos: "x \<le> 0 \<Longrightarrow> to_double x \<le> 0"
  using to_double_nonneg [of "- x"] by simp

lemma to_double_abs: "\<bar>to_double x\<bar> = to_double \<bar>x\<bar>"
  by (cases "0 \<le> x") (simp_all add: to_double_nonneg to_double_nonpos)

lemma to_double_abs_le: "\<bar>x\<bar> \<le> \<bar>d\<bar> \<Longrightarrow> to_double d = d \<Longrightarrow> \<bar>to_double x\<bar> \<le> \<bar>d\<bar>"
  unfolding to_double_def by (rule fround_abs_le) simp_all

lemma to_float_abs_le: "\<bar>x\<bar> \<le> \<bar>d\<bar> \<Longrightarrow> to_float d = d \<Longrightarrow> \<bar>to_float x\<bar> \<le> \<bar>d\<bar>"
  unfolding to_float_def by (rule fround_abs_le) simp_all

text \<open>
  For the numbers of the examples, whose binades have exponents from -4 to 4, the
  simplifier computes the rounding with these rules.
\<close>

lemmas to_double_evals =
  to_double_eval [where e = "- 4"] to_double_eval [where e = "- 3"]
  to_double_eval [where e = "- 2"] to_double_eval [where e = "- 1"]
  to_double_eval [where e = 0] to_double_eval [where e = 1]
  to_double_eval [where e = 2] to_double_eval [where e = 3]
  to_double_eval [where e = 4]

lemmas to_float_evals =
  to_float_eval [where e = "- 4"] to_float_eval [where e = "- 3"]
  to_float_eval [where e = "- 2"] to_float_eval [where e = "- 1"]
  to_float_eval [where e = 0] to_float_eval [where e = 1]
  to_float_eval [where e = 2] to_float_eval [where e = 3]
  to_float_eval [where e = 4]

lemmas round_evals = pow2_numeral round_even_def Let_def

section \<open>Properties of the speed limiter\<close>

subsection \<open>Vectors\<close>

lemma Vector3d_eta: "Vector3d (vec_x v) (vec_y v) (vec_z v) = (v::vec3)"
  by (simp add: Vector3d_def)

lemma Vector3d_sel:
  "vec_x (Vector3d a b c) = a" "vec_y (Vector3d a b c) = b" "vec_z (Vector3d a b c) = c"
  by (simp_all add: Vector3d_def)

text \<open>
  A product by a factor between 0 and 1 keeps the sign of a coefficient, and its
  magnitude does not grow when the coefficient is a \<^verbatim>\<open>double\<close>.
\<close>

lemma product_abs_le:
  assumes "0 \<le> k" "k \<le> 1" "to_double c = c"
  shows "\<bar>to_double (k * c)\<bar> \<le> \<bar>c\<bar>"
proof -
  have "\<bar>k * c\<bar> \<le> \<bar>c\<bar>"
    using assms(1,2) by (simp add: abs_mult mult_left_le_one_le)
  then show ?thesis using assms(3) by (rule to_double_abs_le)
qed

lemma product_sign:
  assumes "0 \<le> k"
  shows "(0 \<le> c \<longrightarrow> 0 \<le> to_double (k * c)) \<and> (c \<le> 0 \<longrightarrow> to_double (k * c) \<le> 0)"
  using assms by (auto intro!: to_double_nonneg to_double_nonpos simp: mult_nonneg_nonpos)

lemma fold_scale_abs_le:
  assumes "\<forall>k \<in> set ks. 0 \<le> k \<and> k \<le> 1"
    and "to_double (vec_x v) = vec_x v" "to_double (vec_y v) = vec_y v"
    and "to_double (vec_z v) = vec_z v"
  shows "\<bar>vec_x (fold scale ks v)\<bar> \<le> \<bar>vec_x v\<bar> \<and> \<bar>vec_y (fold scale ks v)\<bar> \<le> \<bar>vec_y v\<bar>
         \<and> \<bar>vec_z (fold scale ks v)\<bar> \<le> \<bar>vec_z v\<bar>"
  using assms
proof (induction ks arbitrary: v)
  case Nil
  then show ?case by simp
next
  case (Cons k ks)
  from Cons.prems(1) have k: "0 \<le> k" "k \<le> 1" and ks: "\<forall>k \<in> set ks. 0 \<le> k \<and> k \<le> 1"
    by simp_all
  let ?w = "scale k v"
  have w: "to_double (vec_x ?w) = vec_x ?w" "to_double (vec_y ?w) = vec_y ?w"
      "to_double (vec_z ?w) = vec_z ?w"
    by (simp_all add: scale_def Vector3d_def)
  have step: "\<bar>vec_x ?w\<bar> \<le> \<bar>vec_x v\<bar>" "\<bar>vec_y ?w\<bar> \<le> \<bar>vec_y v\<bar>" "\<bar>vec_z ?w\<bar> \<le> \<bar>vec_z v\<bar>"
    using k Cons.prems(2-4) by (simp_all add: scale_def Vector3d_def product_abs_le)
  from Cons.IH [OF ks w] step show ?case by fastforce
qed

lemma fold_scale_sign:
  assumes "\<forall>k \<in> set ks. 0 \<le> k"
  shows "(0 \<le> vec_x v \<longrightarrow> 0 \<le> vec_x (fold scale ks v))
       \<and> (vec_x v \<le> 0 \<longrightarrow> vec_x (fold scale ks v) \<le> 0)
       \<and> (0 \<le> vec_y v \<longrightarrow> 0 \<le> vec_y (fold scale ks v))
       \<and> (vec_y v \<le> 0 \<longrightarrow> vec_y (fold scale ks v) \<le> 0)
       \<and> (0 \<le> vec_z v \<longrightarrow> 0 \<le> vec_z (fold scale ks v))
       \<and> (vec_z v \<le> 0 \<longrightarrow> vec_z (fold scale ks v) \<le> 0)"
  using assms
proof (induction ks arbitrary: v)
  case Nil
  then show ?case by simp
next
  case (Cons k ks)
  from Cons.prems have k: "0 \<le> k" and ks: "\<forall>k \<in> set ks. 0 \<le> k" by simp_all
  let ?w = "scale k v"
  have "(0 \<le> vec_x v \<longrightarrow> 0 \<le> vec_x ?w) \<and> (vec_x v \<le> 0 \<longrightarrow> vec_x ?w \<le> 0)"
    "(0 \<le> vec_y v \<longrightarrow> 0 \<le> vec_y ?w) \<and> (vec_y v \<le> 0 \<longrightarrow> vec_y ?w \<le> 0)"
    "(0 \<le> vec_z v \<longrightarrow> 0 \<le> vec_z ?w) \<and> (vec_z v \<le> 0 \<longrightarrow> vec_z ?w \<le> 0)"
    using product_sign [OF k] by (simp_all add: scale_def Vector3d_def)
  with Cons.IH [OF ks, of ?w] show ?case by simp
qed

lemma coeff_scale: "coeff (scale k v) j = to_double (k * coeff v j)"
  by (simp add: coeff_def scale_def Vector3d_def)

lemma product_order:
  assumes "0 \<le> k" "\<bar>a\<bar> \<le> \<bar>b\<bar>"
  shows "\<bar>to_double (k * a)\<bar> \<le> \<bar>to_double (k * b)\<bar>"
proof -
  from assms have "\<bar>k * a\<bar> \<le> \<bar>k * b\<bar>"
    by (simp add: abs_mult mult_left_mono)
  then show ?thesis unfolding to_double_abs by (rule to_double_mono)
qed

lemma fold_scale_order:
  assumes "\<forall>k \<in> set ks. 0 \<le> k" and "\<bar>coeff v i\<bar> \<le> \<bar>coeff v j\<bar>"
  shows "\<bar>coeff (fold scale ks v) i\<bar> \<le> \<bar>coeff (fold scale ks v) j\<bar>"
  using assms
proof (induction ks arbitrary: v)
  case Nil
  then show ?case by simp
next
  case (Cons k ks)
  from Cons.prems(1) have k: "0 \<le> k" and ks: "\<forall>k \<in> set ks. 0 \<le> k" by simp_all
  have "\<bar>coeff (scale k v) i\<bar> \<le> \<bar>coeff (scale k v) j\<bar>"
    unfolding coeff_scale using k Cons.prems(2) by (rule product_order)
  from Cons.IH [OF ks this] show ?case by simp
qed

subsection \<open>Accepting a goal\<close>

text \<open>
  A goal whose speed is zero keeps the configured speed, so the speed of the plugin is
  zero after \<^verbatim>\<open>onAccepted\<close> only if the configured one was.
\<close>

lemma onAccepted_zero_speed:
  "desired_speed (onAccepted p g) = 0 \<longleftrightarrow> max_speed g = 0 \<and> desired_speed p = 0"
  by (simp add: onAccepted_def)

subsection \<open>The per-axis clamp\<close>

lemma getValidSpeed_bound:
  "0 \<le> desired_speed p \<Longrightarrow> \<bar>getValidSpeed p s\<bar> \<le> desired_speed p"
  by (simp add: getValidSpeed_def Let_def)

lemma getValidSpeed_float:
  "\<bar>to_float s\<bar> \<le> desired_speed p \<Longrightarrow> getValidSpeed p s = to_float s"
  by (simp add: getValidSpeed_def Let_def)

lemma getValidSpeed_zero: "desired_speed p = 0 \<Longrightarrow> getValidSpeed p s = 0"
  by (simp add: getValidSpeed_def Let_def)

lemma getValidSpeed_le:
  "0 \<le> desired_speed p \<Longrightarrow> \<bar>getValidSpeed p s\<bar> \<le> \<bar>to_float s\<bar>"
  by (simp add: getValidSpeed_def Let_def)

lemma delimit_speed_clamp:
  "\<not> proportional_speed_limit p \<Longrightarrow>
   delimit_speed p v = Inr (Vector3d (getValidSpeed p (vec_x v))
                                     (getValidSpeed p (vec_y v))
                                     (getValidSpeed p (vec_z v)))"
  by (simp add: delimit_speed_def Vector3d_def)

subsection \<open>The proportional limit\<close>

text \<open>
  One pass of the loop body leaves the vector as it is or multiplies every
  coefficient by the same factor, which is not negative, and at most one when the
  maximum speed is not negative. It never divides by zero: the divisor is the
  coefficient that the \<^verbatim>\<open>continue\<close> test has found non-zero.
\<close>

lemma limit_axis_cases:
  "limit_axis p j v = Inr v
   \<or> (\<exists>k. 0 \<le> k \<and> (0 \<le> desired_speed p \<longrightarrow> k \<le> 1) \<and> limit_axis p j v = Inr (scale k v))"
proof (cases "(desired_speed p = 0 \<or> coeff v j = 0)
    \<or> \<not> (coeff v j > desired_speed p \<or> coeff v j < - desired_speed p)")
  case True
  then have "limit_axis p j v = Inr v"
    by (auto simp: limit_axis_def)
  then show ?thesis by simp
next
  case False
  then have nz: "desired_speed p \<noteq> 0" "coeff v j \<noteq> 0"
    and over: "coeff v j > desired_speed p \<or> coeff v j < - desired_speed p" by auto
  let ?k = "\<bar>to_double (desired_speed p / coeff v j)\<bar>"
  from nz over have ret: "limit_axis p j v = Inr (scale ?k v)"
    by (simp add: limit_axis_def fdiv_def)
  have "?k \<le> 1" if "0 \<le> desired_speed p"
  proof -
    from over that have "desired_speed p \<le> \<bar>coeff v j\<bar>" by linarith
    with that nz have "\<bar>desired_speed p / coeff v j\<bar> \<le> \<bar>1\<bar>" by (simp add: abs_divide)
    then have "\<bar>to_double (desired_speed p / coeff v j)\<bar> \<le> \<bar>1\<bar>"
      by (rule to_double_abs_le) simp
    then show ?thesis by simp
  qed
  with ret show ?thesis by (intro disjI2 exI [of _ ?k]) simp
qed

lemma proportional_loop_fold:
  "\<exists>ks. length ks \<le> 3 - j \<and> (\<forall>k \<in> set ks. 0 \<le> k \<and> (0 \<le> desired_speed p \<longrightarrow> k \<le> 1))
        \<and> proportional_loop p j v = Inr (fold scale ks v)"
proof (induction p j v rule: proportional_loop.induct)
  case (1 p j speed)
  show ?case
  proof (cases "j < 3")
    case False
    then have "proportional_loop p j speed = Inr (fold scale [] speed)"
      by (subst proportional_loop.simps) simp
    then show ?thesis by (intro exI [of _ "[]"]) simp
  next
    case True
    consider "limit_axis p j speed = Inr speed"
      | k where "0 \<le> k" "0 \<le> desired_speed p \<longrightarrow> k \<le> 1"
          "limit_axis p j speed = Inr (scale k speed)"
      using limit_axis_cases [of p j speed] by blast
    then show ?thesis
    proof cases
      case 1
      from "1.IH" [OF True 1] obtain ks where ks: "length ks \<le> 3 - Suc j"
          "\<forall>k \<in> set ks. 0 \<le> k \<and> (0 \<le> desired_speed p \<longrightarrow> k \<le> 1)"
          "proportional_loop p (Suc j) speed = Inr (fold scale ks speed)"
        by blast
      from True 1 ks(3) have "proportional_loop p j speed = Inr (fold scale ks speed)"
        by (subst proportional_loop.simps) simp
      moreover from ks(1) have "length ks \<le> 3 - j" by simp
      ultimately show ?thesis using ks(2) by blast
    next
      case 2
      from "1.IH" [OF True 2(3)] obtain ks where ks: "length ks \<le> 3 - Suc j"
          "\<forall>k \<in> set ks. 0 \<le> k \<and> (0 \<le> desired_speed p \<longrightarrow> k \<le> 1)"
          "proportional_loop p (Suc j) (scale k speed) = Inr (fold scale ks (scale k speed))"
        by blast
      from True 2(3) ks(3) have "proportional_loop p j speed = Inr (fold scale (k # ks) speed)"
        by (subst proportional_loop.simps) simp
      moreover from ks(1) True have "length (k # ks) \<le> 3 - j" by simp
      moreover from ks(2) 2(1,2)
      have "\<forall>k \<in> set (k # ks). 0 \<le> k \<and> (0 \<le> desired_speed p \<longrightarrow> k \<le> 1)" by simp
      ultimately show ?thesis by blast
    qed
  qed
qed

lemma limit_axis_zero: "desired_speed p = 0 \<Longrightarrow> limit_axis p j v = Inr v"
  by (simp add: limit_axis_def)

lemma proportional_loop_zero:
  "desired_speed p = 0 \<Longrightarrow> proportional_loop p j v = Inr v"
  by (induction p j v rule: proportional_loop.induct)
     (subst proportional_loop.simps, simp add: limit_axis_zero)

lemma delimit_speed_proportional:
  "proportional_speed_limit p \<Longrightarrow> delimit_speed p v = proportional_loop p 0 v"
  by (simp add: delimit_speed_def Vector3d_eta)

lemma delimit_speed_fold:
  assumes "proportional_speed_limit p"
  shows "\<exists>ks. length ks \<le> 3 \<and> (\<forall>k \<in> set ks. 0 \<le> k \<and> (0 \<le> desired_speed p \<longrightarrow> k \<le> 1))
           \<and> delimit_speed p v = Inr (fold scale ks v)"
  using proportional_loop_fold [of 0 p v] by (simp add: delimit_speed_proportional [OF assms])

lemma delimit_speed_total: "\<exists>out. delimit_speed p v = Inr out"
proof (cases "proportional_speed_limit p")
  case True
  then show ?thesis using delimit_speed_fold [of p v] by blast
next
  case False
  then show ?thesis by (simp add: delimit_speed_clamp)
qed

subsection \<open>Claims about the limiter\<close>

text \<open>
  Claim C1, as the specification states it, fails. \<^verbatim>\<open>getValidSpeed\<close> takes a
  \<^verbatim>\<open>float\<close>, so every coefficient is converted to single precision on the way in.
  At maximum speed 2 the coefficient \<open>1 + 3 / 2 ^ 25\<close>, which is a \<^verbatim>\<open>double\<close> within
  the bound, comes back as \<open>1 + 1 / 2 ^ 23\<close>, not as it was.
\<close>

theorem clamp_identity_counterexample:
  "delimit_speed (Plugin (Vector3d 0 0 0) 2 False False) (Vector3d (1 + 3 / 2 ^ 25) 0 0)
     = Inr (Vector3d (1 + 1 / 2 ^ 23) 0 0)
   \<and> to_double (vec_x (Vector3d (1 + 3 / 2 ^ 25) 0 0)) = vec_x (Vector3d (1 + 3 / 2 ^ 25) 0 0)
   \<and> \<bar>vec_x (Vector3d (1 + 3 / 2 ^ 25) 0 0)\<bar>
       \<le> desired_speed (Plugin (Vector3d 0 0 0) 2 False False)
   \<and> vec_x (Vector3d (1 + 1 / 2 ^ 23) 0 0) \<noteq> vec_x (Vector3d (1 + 3 / 2 ^ 25) 0 0)"
  by (simp add: delimit_speed_def Plugin_def getValidSpeed_def Vector3d_def
      to_float_evals to_double_evals round_evals)

text \<open>
  Claim C1, amended. Under the per-axis clamp (\<open>proportional_speed_limit\<close> off) and
  with a positive maximum speed, the limiter returns a vector each of whose
  coefficients has magnitude at most the maximum speed. A coefficient of the input is
  returned rounded to single precision whenever the rounded coefficient is within the
  maximum speed, which is so whenever the coefficient itself is and the maximum speed
  is a \<^verbatim>\<open>float\<close>; it is returned as it is when, in addition, it is a \<^verbatim>\<open>float\<close>.
\<close>

theorem clamp_within_max_speed:
  assumes "0 < desired_speed p" and "\<not> proportional_speed_limit p"
  shows "\<exists>out. delimit_speed p v = Inr out
           \<and> (\<forall>j < 3. \<bar>coeff out j\<bar> \<le> desired_speed p
                 \<and> (\<bar>to_float (coeff v j)\<bar> \<le> desired_speed p
                      \<longrightarrow> coeff out j = to_float (coeff v j))
                 \<and> (\<bar>coeff v j\<bar> \<le> desired_speed p
                      \<and> to_float (desired_speed p) = desired_speed p
                      \<longrightarrow> coeff out j = to_float (coeff v j))
                 \<and> (\<bar>coeff v j\<bar> \<le> desired_speed p \<and> to_float (coeff v j) = coeff v j
                      \<longrightarrow> coeff out j = coeff v j))"
proof -
  let ?out = "Vector3d (getValidSpeed p (vec_x v)) (getValidSpeed p (vec_y v))
                       (getValidSpeed p (vec_z v))"
  have ret: "delimit_speed p v = Inr ?out"
    using assms(2) by (rule delimit_speed_clamp)
  have nonneg: "0 \<le> desired_speed p" and abs: "\<bar>desired_speed p\<bar> = desired_speed p"
    using assms(1) by simp_all
  have bound: "\<bar>getValidSpeed p s\<bar> \<le> desired_speed p" for s
    using nonneg by (rule getValidSpeed_bound)
  have rounded: "getValidSpeed p s = to_float s"
    if "\<bar>s\<bar> \<le> desired_speed p" "to_float (desired_speed p) = desired_speed p" for s
  proof -
    from that(1) have "\<bar>s\<bar> \<le> \<bar>desired_speed p\<bar>" by (simp only: abs)
    then have "\<bar>to_float s\<bar> \<le> \<bar>desired_speed p\<bar>" using that(2) by (rule to_float_abs_le)
    then show ?thesis by (simp only: abs getValidSpeed_float)
  qed
  have kept: "getValidSpeed p s = s"
    if "\<bar>s\<bar> \<le> desired_speed p" "to_float s = s" for s
    using that getValidSpeed_float [of s p] by simp
  have "\<bar>coeff ?out j\<bar> \<le> desired_speed p
        \<and> (\<bar>to_float (coeff v j)\<bar> \<le> desired_speed p \<longrightarrow> coeff ?out j = to_float (coeff v j))
        \<and> (\<bar>coeff v j\<bar> \<le> desired_speed p \<and> to_float (desired_speed p) = desired_speed p
              \<longrightarrow> coeff ?out j = to_float (coeff v j))
        \<and> (\<bar>coeff v j\<bar> \<le> desired_speed p \<and> to_float (coeff v j) = coeff v j
              \<longrightarrow> coeff ?out j = coeff v j)" for j
    by (simp add: coeff_def Vector3d_def bound getValidSpeed_float rounded kept)
  with ret show ?thesis by blast
qed

text \<open>
  The clamp at maximum speed 2 on \<open>(1 + 3 / 2 ^ 25, 1, -5)\<close>: the first coefficient is
  rounded to single precision, the second, a \<^verbatim>\<open>float\<close>, is kept, and the last is
  cut to -2.
\<close>

theorem clamp_within_max_speed_witness:
  "0 < desired_speed (Plugin (Vector3d 0 0 0) 2 False False)
   \<and> \<not> proportional_speed_limit (Plugin (Vector3d 0 0 0) 2 False False)
   \<and> to_float (desired_speed (Plugin (Vector3d 0 0 0) 2 False False))
       = desired_speed (Plugin (Vector3d 0 0 0) 2 False False)
   \<and> to_float (1 + 3 / 2 ^ 25) = 1 + 1 / 2 ^ 23
   \<and> to_float 1 = 1
   \<and> delimit_speed (Plugin (Vector3d 0 0 0) 2 False False) (Vector3d (1 + 3 / 2 ^ 25) 1 (- 5))
       = Inr (Vector3d (1 + 1 / 2 ^ 23) 1 (- 2))"
  using clamp_within_max_speed
    [of "Plugin (Vector3d 0 0 0) 2 False False" "Vector3d (1 + 3 / 2 ^ 25) 1 (- 5)"]
  by (simp add: delimit_speed_def Plugin_def Vector3d_def getValidSpeed_def
      to_float_evals round_evals)

text \<open>
  Claim C4, as the specification states it, fails. For the target \<open>(10, 10, 0)\<close>, the
  position \<open>(0, 0, 0)\<close> and the maximum speed 2 the proportional limit returns
  \<open>(2, 2, 0)\<close>: the first pass multiplies by the quotient of 2 by 10, and the rounded
  products are 2, after which no coefficient exceeds 2. Each of the first two
  coefficients is further than \<open>1 / 2\<close> from \<open>sqrt 2\<close>, so the command is not
  approximately \<open>(sqrt 2, sqrt 2, 0)\<close>.
\<close>

theorem proportional_example_counterexample:
  "delimit_speed (Plugin (Vector3d 10 10 0) 2 False True)
     (vsub (Vector3d 10 10 0) (Vector3d 0 0 0)) = Inr (Vector3d 2 2 0)
   \<and> 1 / 2 < \<bar>vec_x (Vector3d 2 2 0) - sqrt 2\<bar>
   \<and> 1 / 2 < \<bar>vec_y (Vector3d 2 2 0) - sqrt 2\<bar>"
proof -
  have "sqrt 2 < 3 / 2"
    by (rule real_less_lsqrt) (simp_all add: power2_eq_square)
  then have "1 / 2 < \<bar>2 - sqrt 2\<bar>" by simp
  moreover have "delimit_speed (Plugin (Vector3d 10 10 0) 2 False True)
     (vsub (Vector3d 10 10 0) (Vector3d 0 0 0)) = Inr (Vector3d 2 2 0)"
    by (simp add: delimit_speed_def Plugin_def vsub_def proportional_loop.simps limit_axis_def
        fdiv_def coeff_def scale_def Vector3d_def to_double_evals round_evals)
  ultimately show ?thesis by (simp add: Vector3d_def)
qed

text \<open>
  Claim C4, amended. For the target \<open>(10, 10, 0)\<close>, the position \<open>(0, 0, 0)\<close> and the
  maximum speed 2, the proportional limit returns exactly \<open>(2, 2, 0)\<close>: the two
  horizontal coefficients are equal, as those of the error are, and every coefficient
  has magnitude at most 2.
\<close>

theorem proportional_example:
  "delimit_speed (Plugin (Vector3d 10 10 0) 2 False True)
     (vsub (Vector3d 10 10 0) (Vector3d 0 0 0)) = Inr (Vector3d 2 2 0)
   \<and> vec_x (Vector3d 2 2 0) = vec_y (Vector3d 2 2 0)
   \<and> \<bar>vec_x (Vector3d 2 2 0)\<bar> \<le> 2 \<and> \<bar>vec_y (Vector3d 2 2 0)\<bar> \<le> 2
   \<and> \<bar>vec_z (Vector3d 2 2 0)\<bar> \<le> 2"
  by (simp add: delimit_speed_def Plugin_def vsub_def proportional_loop.simps limit_axis_def
      fdiv_def coeff_def scale_def Vector3d_def to_double_evals round_evals)

text \<open>
  Claim C5. With the maximum speed zero the limiter returns a vector, without dividing
  by zero (a division by zero would be \<open>Inl DivisionByZero\<close>): the input itself under
  the proportional limit, where every pass is skipped, and the zero vector under the
  per-axis clamp.
\<close>

theorem zero_max_speed:
  assumes "desired_speed p = 0"
  shows "delimit_speed p v = Inr (if proportional_speed_limit p then v else Vector3d 0 0 0)"
proof (cases "proportional_speed_limit p")
  case True
  with proportional_loop_zero [OF assms, of 0 v] show ?thesis
    by (simp add: delimit_speed_proportional)
next
  case False
  then show ?thesis
    by (simp add: delimit_speed_clamp getValidSpeed_zero [OF assms])
qed

theorem zero_max_speed_witness:
  "desired_speed (Plugin (Vector3d 0 0 0) 0 False True) = 0
   \<and> delimit_speed (Plugin (Vector3d 0 0 0) 0 False True) (Vector3d 3 (- 4) 0)
       = Inr (Vector3d 3 (- 4) 0)
   \<and> desired_speed (Plugin (Vector3d 0 0 0) 0 False False) = 0
   \<and> delimit_speed (Plugin (Vector3d 0 0 0) 0 False False) (Vector3d 3 (- 4) 0)
       = Inr (Vector3d 0 0 0)"
  using zero_max_speed [of "Plugin (Vector3d 0 0 0) 0 False True" "Vector3d 3 (- 4) 0"]
    zero_max_speed [of "Plugin (Vector3d 0 0 0) 0 False False" "Vector3d 3 (- 4) 0"]
  by (simp add: Plugin_def)

text \<open>
  Claim C6, as the specification states it, fails. At maximum speed 2 the input
  \<open>(4, 10, 1)\<close> is halved by the first pass; the second pass multiplies \<open>(2, 5, 1 / 2)\<close>
  by the \<^verbatim>\<open>double\<close> nearest to \<open>2 / 5\<close>, and the second product is rounded to 2
  while the two others are exact. The ratio of the first two coefficients of the
  result is not \<open>4 / 10\<close>, so the result is no multiple of the input.
\<close>

theorem proportional_direction_counterexample:
  "delimit_speed (Plugin (Vector3d 0 0 0) 2 False True) (Vector3d 4 10 1)
     = Inr (Vector3d (3602879701896397 / 2 ^ 52) 2 (3602879701896397 / 2 ^ 54))
   \<and> vec_x (Vector3d (3602879701896397 / 2 ^ 52) 2 (3602879701896397 / 2 ^ 54))
       / vec_y (Vector3d (3602879701896397 / 2 ^ 52) 2 (3602879701896397 / 2 ^ 54))
     \<noteq> vec_x (Vector3d 4 10 1) / vec_y (Vector3d 4 10 1)"
  by (simp add: delimit_speed_def Plugin_def proportional_loop.simps limit_axis_def
      fdiv_def coeff_def scale_def Vector3d_def to_double_evals round_evals)

text \<open>
  Claim C6, amended. Under the proportional limit with a positive maximum speed, for
  an input none of whose coefficients is zero, the limiter returns the input after at
  most three passes, each of which multiplies the three coefficients by the same
  factor between 0 and 1 and rounds each product to the nearest \<^verbatim>\<open>double\<close>. So the
  ratios between the coefficients are those of the input up to these roundings; no
  coefficient changes its sign, and a coefficient that is not larger in magnitude than
  another in the input is not larger than it in the result.
\<close>

theorem proportional_keeps_direction:
  assumes "0 < desired_speed p" and "proportional_speed_limit p"
    and "vec_x v \<noteq> 0" and "vec_y v \<noteq> 0" and "vec_z v \<noteq> 0"
  shows "\<exists>ks out. delimit_speed p v = Inr out \<and> out = fold scale ks v
           \<and> length ks \<le> 3 \<and> (\<forall>k \<in> set ks. 0 \<le> k \<and> k \<le> 1)
           \<and> 0 \<le> vec_x v * vec_x out \<and> 0 \<le> vec_y v * vec_y out
           \<and> 0 \<le> vec_z v * vec_z out
           \<and> (\<forall>i < 3. \<forall>j < 3. \<bar>coeff v i\<bar> \<le> \<bar>coeff v j\<bar>
                  \<longrightarrow> \<bar>coeff out i\<bar> \<le> \<bar>coeff out j\<bar>)"
proof -
  from assms(1) have nonneg: "0 \<le> desired_speed p" by simp
  obtain ks where ks: "length ks \<le> 3" "\<forall>k \<in> set ks. 0 \<le> k \<and> k \<le> 1"
      "delimit_speed p v = Inr (fold scale ks v)"
    using delimit_speed_fold [OF assms(2), of v] nonneg by auto
  from ks(2) have ks0: "\<forall>k \<in> set ks. 0 \<le> k" by simp
  note sign = fold_scale_sign [OF ks0, of v]
  have "0 \<le> vec_x v * vec_x (fold scale ks v)"
    using sign by (cases "0 \<le> vec_x v") (simp_all add: mult_nonpos_nonpos)
  moreover have "0 \<le> vec_y v * vec_y (fold scale ks v)"
    using sign by (cases "0 \<le> vec_y v") (simp_all add: mult_nonpos_nonpos)
  moreover have "0 \<le> vec_z v * vec_z (fold scale ks v)"
    using sign by (cases "0 \<le> vec_z v") (simp_all add: mult_nonpos_nonpos)
  moreover have "\<forall>i < 3. \<forall>j < 3. \<bar>coeff v i\<bar> \<le> \<bar>coeff v j\<bar>
      \<longrightarrow> \<bar>coeff (fold scale ks v) i\<bar> \<le> \<bar>coeff (fold scale ks v) j\<bar>"
    using fold_scale_order [OF ks0] by blast
  ultimately show ?thesis using ks by blast
qed

text \<open>
  At maximum speed 2 the input \<open>(3, - 6, 1)\<close> is multiplied by the nearest \<^verbatim>\<open>double\<close>
  to \<open>2 / 3\<close> in the first pass and by \<open>1 / 2\<close> in the second.
\<close>

theorem proportional_keeps_direction_witness:
  "0 < desired_speed (Plugin (Vector3d 0 0 0) 2 False True)
   \<and> proportional_speed_limit (Plugin (Vector3d 0 0 0) 2 False True)
   \<and> vec_x (Vector3d 3 (- 6) 1) \<noteq> 0 \<and> vec_y (Vector3d 3 (- 6) 1) \<noteq> 0
   \<and> vec_z (Vector3d 3 (- 6) 1) \<noteq> 0
   \<and> delimit_speed (Plugin (Vector3d 0 0 0) 2 False True) (Vector3d 3 (- 6) 1)
       = Inr (fold scale [6004799503160661 / 2 ^ 53, 1 / 2] (Vector3d 3 (- 6) 1))
   \<and> fold scale [6004799503160661 / 2 ^ 53, 1 / 2] (Vector3d 3 (- 6) 1)
       = Vector3d 1 (- 2) (6004799503160661 / 2 ^ 54)"
  using proportional_keeps_direction
    [of "Plugin (Vector3d 0 0 0) 2 False True" "Vector3d 3 (- 6) 1"]
  by (simp add: delimit_speed_def Plugin_def proportional_loop.simps limit_axis_def fdiv_def
      coeff_def scale_def Vector3d_def to_double_evals round_evals)

text \<open>
  Claim C10, as the specification states it, fails under the per-axis clamp, for the
  same reason as claim C1: the conversion to single precision can round a coefficient
  away from zero. At maximum speed 2 the third coefficient \<open>- (1 + 3 / 2 ^ 25)\<close>, a
  \<^verbatim>\<open>double\<close>, comes back as \<open>- (1 + 1 / 2 ^ 23)\<close>, which is larger in magnitude.
\<close>

theorem clamp_amplifies_counterexample:
  "0 \<le> desired_speed (Plugin (Vector3d 0 0 0) 2 False False)
   \<and> delimit_speed (Plugin (Vector3d 0 0 0) 2 False False) (Vector3d 0 0 (- (1 + 3 / 2 ^ 25)))
     = Inr (Vector3d 0 0 (- (1 + 1 / 2 ^ 23)))
   \<and> to_double (vec_z (Vector3d 0 0 (- (1 + 3 / 2 ^ 25))))
       = vec_z (Vector3d 0 0 (- (1 + 3 / 2 ^ 25)))
   \<and> \<bar>vec_z (Vector3d 0 0 (- (1 + 3 / 2 ^ 25)))\<bar> < \<bar>vec_z (Vector3d 0 0 (- (1 + 1 / 2 ^ 23)))\<bar>"
  by (simp add: delimit_speed_def Plugin_def getValidSpeed_def Vector3d_def
      to_float_evals to_double_evals round_evals)

text \<open>
  Claim C10, amended. With a maximum speed that is not negative and an input whose
  coefficients are \<^verbatim>\<open>double\<close>s, the limiter returns a vector. Under the
  proportional limit no coefficient of it has a larger magnitude than the same
  coefficient of the input. Under the per-axis clamp no coefficient has a larger
  magnitude than the same coefficient of the input rounded to single precision.
\<close>

theorem limiter_never_amplifies:
  assumes "0 \<le> desired_speed p"
    and "to_double (vec_x v) = vec_x v" and "to_double (vec_y v) = vec_y v"
    and "to_double (vec_z v) = vec_z v"
  shows "\<exists>out. delimit_speed p v = Inr out
           \<and> (if proportional_speed_limit p
               then \<bar>vec_x out\<bar> \<le> \<bar>vec_x v\<bar> \<and> \<bar>vec_y out\<bar> \<le> \<bar>vec_y v\<bar>
                    \<and> \<bar>vec_z out\<bar> \<le> \<bar>vec_z v\<bar>
               else \<bar>vec_x out\<bar> \<le> \<bar>to_float (vec_x v)\<bar> \<and> \<bar>vec_y out\<bar> \<le> \<bar>to_float (vec_y v)\<bar>
                    \<and> \<bar>vec_z out\<bar> \<le> \<bar>to_float (vec_z v)\<bar>)"
proof (cases "proportional_speed_limit p")
  case True
  obtain ks where ks: "\<forall>k \<in> set ks. 0 \<le> k \<and> k \<le> 1"
      "delimit_speed p v = Inr (fold scale ks v)"
    using delimit_speed_fold [OF True, of v] assms(1) by auto
  from fold_scale_abs_le [OF ks(1) assms(2-4)] ks(2) True show ?thesis by simp
next
  case False
  then show ?thesis
    by (simp add: delimit_speed_clamp Vector3d_def getValidSpeed_le [OF assms(1)])
qed

theorem limiter_never_amplifies_witness:
  "0 \<le> desired_speed (Plugin (Vector3d 0 0 0) 2 False True)
   \<and> to_double (vec_x (Vector3d 4 10 1)) = vec_x (Vector3d 4 10 1)
   \<and> to_double (vec_y (Vector3d 4 10 1)) = vec_y (Vector3d 4 10 1)
   \<and> to_double (vec_z (Vector3d 4 10 1)) = vec_z (Vector3d 4 10 1)
   \<and> delimit_speed (Plugin (Vector3d 0 0 0) 2 False True) (Vector3d 4 10 1)
       = Inr (Vector3d (3602879701896397 / 2 ^ 52) 2 (3602879701896397 / 2 ^ 54))
   \<and> 0 \<le> desired_speed (Plugin (Vector3d 0 0 0) 2 False False)
   \<and> delimit_speed (Plugin (Vector3d 0 0 0) 2 False False) (Vector3d 4 10 1)
       = Inr (Vector3d 2 2 1)"
  using limiter_never_amplifies [of "Plugin (Vector3d 0 0 0) 2 False True" "Vector3d 4 10 1"]
    limiter_never_amplifies [of "Plugin (Vector3d 0 0 0) 2 False False" "Vector3d 4 10 1"]
  by (simp add: delimit_speed_def Plugin_def proportional_loop.simps limit_axis_def fdiv_def
      coeff_def scale_def Vector3d_def getValidSpeed_def to_double_evals to_float_evals
      round_evals)

section \<open>Properties of the execution loop\<close>

subsection \<open>One iteration\<close>

text \<open>
  An iteration that goes on always emits a speed command, a feedback message and the
  sleep: the limiter returns a vector whatever the policy.
\<close>

lemma control_tick_events:
  "\<exists>a b c. control_tick p t =
     Inr [SendSpeedCommandWithYawAngle a b c
            (select_yaw p t (vsub (desired_position p) (actual_position t))),
          PublishFeedback (actual_distance_to_goal t) (actual_speed t), Sleep]"
proof -
  obtain out where "delimit_speed p (vsub (desired_position p) (actual_position t)) = Inr out"
    using delimit_speed_total by blast
  then show ?thesis by (simp add: control_tick_def)
qed

lemma select_yaw_send_ok: "select_yaw p (send_ok_update f t) e = select_yaw p t e"
  by (simp add: select_yaw_def)

lemma control_tick_send_ok: "control_tick p (send_ok_update f t) = control_tick p t"
  by (simp add: control_tick_def Let_def select_yaw_send_ok split: sum.splits)

text \<open>The two other branches of the heading: near the goal, and towards the target.\<close>

lemma select_yaw_near_goal:
  "head2_norm e < 2 \<Longrightarrow> select_yaw p t e = getActualYaw t"
  by (simp add: select_yaw_def)

lemma select_yaw_towards_target:
  "\<not> ignore_yaw p \<Longrightarrow> 2 \<le> head2_norm e \<Longrightarrow> select_yaw p t e = getDesiredYawAngle e"
  by (simp add: select_yaw_def)

text \<open>
  The two examples of the specification, as whole iterations. Under the clamp, the
  target \<open>(10, 0, 0)\<close> seen from the origin at maximum speed 2 gives the command
  \<open>(2, 0, 0)\<close> with heading 0. Under the proportional limit, the target
  \<open>(10, 10, 0)\<close> gives \<open>(2, 2, 0)\<close> with the heading \<open>pi / 4\<close> in single precision.
\<close>

lemma clamp_example:
  "control_tick (Plugin (Vector3d 10 0 0) 2 False False)
     (Tick False False (Vector3d 0 0 0) 1 True 10 0)
   = Inr [SendSpeedCommandWithYawAngle 2 0 0 0, PublishFeedback 10 0, Sleep]"
proof -
  let ?P = "Plugin (Vector3d 10 0 0) 2 False False"
  let ?T = "Tick False False (Vector3d 0 0 0) 1 True 10 0"
  have obs: "desired_position ?P = Vector3d 10 0 0" "actual_position ?T = Vector3d 0 0 0"
      "actual_distance_to_goal ?T = 10" "actual_speed ?T = 0"
    by (simp_all add: Plugin_def Tick_def)
  have sub: "vsub (Vector3d 10 0 0) (Vector3d 0 0 0) = Vector3d 10 0 0"
    by (simp add: vsub_def Vector3d_def to_double_evals round_evals)
  have lim: "delimit_speed ?P (Vector3d 10 0 0) = Inr (Vector3d 2 0 0)"
    by (simp add: delimit_speed_def Plugin_def getValidSpeed_def Vector3d_def
        to_float_evals round_evals)
  have "sqrt 100 = 10"
    using real_sqrt_abs [of 10] by simp
  then have norm: "head2_norm (Vector3d 10 0 0) = 10"
    by (simp add: head2_norm_def Vector3d_def to_double_numeral)
  have yaw: "select_yaw ?P ?T (Vector3d 10 0 0) = 0"
    by (simp add: select_yaw_def norm getDesiredYawAngle_def atan2f_def atan2_def
        Plugin_def Vector3d_sel to_float_evals round_evals)
  show ?thesis
    by (simp add: control_tick_def obs sub lim yaw Vector3d_sel)
qed

lemma proportional_tick_example:
  "control_tick (Plugin (Vector3d 10 10 0) 2 False True)
     (Tick False False (Vector3d 0 0 0) 0 True 15 0)
   = Inr [SendSpeedCommandWithYawAngle 2 2 0 (to_float (pi / 4)), PublishFeedback 15 0, Sleep]"
proof -
  let ?P = "Plugin (Vector3d 10 10 0) 2 False True"
  let ?T = "Tick False False (Vector3d 0 0 0) 0 True 15 0"
  have obs: "desired_position ?P = Vector3d 10 10 0" "actual_position ?T = Vector3d 0 0 0"
      "actual_distance_to_goal ?T = 15" "actual_speed ?T = 0"
    by (simp_all add: Plugin_def Tick_def)
  have sub: "vsub (Vector3d 10 10 0) (Vector3d 0 0 0) = Vector3d 10 10 0"
    by (simp add: vsub_def Vector3d_def to_double_evals round_evals)
  have lim: "delimit_speed ?P (Vector3d 10 10 0) = Inr (Vector3d 2 2 0)"
    by (simp add: delimit_speed_def Plugin_def proportional_loop.simps limit_axis_def
        fdiv_def coeff_def scale_def Vector3d_def to_double_evals round_evals)
  have "2 \<le> sqrt 200"
    using real_sqrt_le_mono [of 4 200] by simp
  then have "to_double 2 \<le> to_double (sqrt 200)" by (rule to_double_mono)
  then have "\<not> to_double (sqrt 200) < 2" by (simp add: to_double_numeral)
  then have norm: "\<not> head2_norm (Vector3d 10 10 0) < 2"
    by (simp add: head2_norm_def Vector3d_def to_double_numeral)
  have yaw: "select_yaw ?P ?T (Vector3d 10 10 0) = to_float (pi / 4)"
    using norm
    by (simp add: select_yaw_def getDesiredYawAngle_def atan2f_def atan2_def
        Plugin_def Vector3d_sel to_float_evals round_evals arctan_one)
  show ?thesis
    by (simp add: control_tick_def obs sub lim yaw Vector3d_sel)
qed

subsection \<open>The loop\<close>

lemma onExecute_loop_send_ok:
  "onExecute_loop p (map (send_ok_update f) ts) tr = onExecute_loop p ts tr"
  by (induction ts arbitrary: tr) (simp_all add: control_tick_send_ok split: sum.splits)

lemma onExecute_loop_outcomes:
  "onExecute_loop p ts tr = Some out \<Longrightarrow>
   \<exists>evs. out = Returned True (evs @ [Succeed True, SendHover])
       \<or> out = Returned False (evs @ [Canceled False, LogWarn ''Goal canceled'', SendHover])"
proof (induction ts arbitrary: tr)
  case Nil
  then show ?case by simp
next
  case (Cons t ts)
  obtain evs where evs: "control_tick p t = Inr evs"
    using control_tick_events [of p t] by blast
  show ?case
  proof (cases "\<not> checkGoalCondition t \<and> \<not> is_canceling t")
    case True
    with Cons.prems evs have "onExecute_loop p ts (tr @ evs) = Some out" by simp
    then show ?thesis by (rule Cons.IH)
  next
    case False
    with Cons.prems show ?thesis by (auto split: if_splits)
  qed
qed

text \<open>
  Observations on which the loop is still running are iterations that went on: the
  loop has emitted their events, none of them a report, a warning or a hover command,
  and goes on with the observations that follow.
\<close>

lemma onExecute_loop_running:
  "onExecute_loop p pre tr = None \<Longrightarrow>
   \<exists>evs. SendHover \<notin> set evs \<and> (\<forall>r. Succeed r \<notin> set evs) \<and> (\<forall>r. Canceled r \<notin> set evs)
     \<and> (\<forall>ts. onExecute_loop p (pre @ ts) tr = onExecute_loop p ts (tr @ evs))"
proof (induction pre arbitrary: tr)
  case Nil
  show ?case by (intro exI [of _ "[]"]) simp
next
  case (Cons t pre)
  obtain a b c where tick: "control_tick p t =
     Inr [SendSpeedCommandWithYawAngle a b c
            (select_yaw p t (vsub (desired_position p) (actual_position t))),
          PublishFeedback (actual_distance_to_goal t) (actual_speed t), Sleep]"
    using control_tick_events [of p t] by blast
  let ?evs1 = "[SendSpeedCommandWithYawAngle a b c
            (select_yaw p t (vsub (desired_position p) (actual_position t))),
          PublishFeedback (actual_distance_to_goal t) (actual_speed t), Sleep]"
  from Cons.prems have run: "\<not> checkGoalCondition t" "\<not> is_canceling t"
    by (auto split: if_splits)
  with Cons.prems tick have "onExecute_loop p pre (tr @ ?evs1) = None" by simp
  from Cons.IH [OF this] obtain evs2 where evs2:
      "SendHover \<notin> set evs2" "\<forall>r. Succeed r \<notin> set evs2" "\<forall>r. Canceled r \<notin> set evs2"
      "\<forall>ts. onExecute_loop p (pre @ ts) (tr @ ?evs1) = onExecute_loop p ts ((tr @ ?evs1) @ evs2)"
    by blast
  from run tick evs2(4)
  have "\<forall>ts. onExecute_loop p ((t # pre) @ ts) tr = onExecute_loop p ts (tr @ (?evs1 @ evs2))"
    by simp
  moreover from evs2(1-3) have "SendHover \<notin> set (?evs1 @ evs2)"
    "\<forall>r. Succeed r \<notin> set (?evs1 @ evs2)" "\<forall>r. Canceled r \<notin> set (?evs1 @ evs2)" by simp_all
  ultimately show ?case by blast
qed

lemma onExecute_running_reports:
  assumes "onExecute p pre = None"
  shows "\<exists>evs. SendHover \<notin> set evs \<and> (\<forall>r. Succeed r \<notin> set evs) \<and> (\<forall>r. Canceled r \<notin> set evs)
           \<and> (\<forall>ts. onExecute p (pre @ ts) = onExecute_loop p ts evs)"
  using onExecute_loop_running [of p pre "[]"] assms unfolding onExecute_def by simp

lemma onExecute_running:
  assumes "onExecute p pre = None"
  shows "\<exists>evs. SendHover \<notin> set evs \<and> Succeed True \<notin> set evs \<and> Canceled False \<notin> set evs
           \<and> (\<forall>ts. onExecute p (pre @ ts) = onExecute_loop p ts evs)"
  using onExecute_running_reports [OF assms] by blast

text \<open>An iteration that goes on hands the loop over to the next observation.\<close>

lemma onExecute_loop_step:
  assumes "\<not> checkGoalCondition t" and "\<not> is_canceling t"
  shows "\<exists>a b c. control_tick p t =
       Inr [SendSpeedCommandWithYawAngle a b c
              (select_yaw p t (vsub (desired_position p) (actual_position t))),
            PublishFeedback (actual_distance_to_goal t) (actual_speed t), Sleep]
     \<and> (\<forall>ts tr. onExecute_loop p (t # ts) tr =
          onExecute_loop p ts (tr @
            [SendSpeedCommandWithYawAngle a b c
              (select_yaw p t (vsub (desired_position p) (actual_position t))),
             PublishFeedback (actual_distance_to_goal t) (actual_speed t), Sleep]))"
proof -
  obtain a b c where tick: "control_tick p t =
     Inr [SendSpeedCommandWithYawAngle a b c
            (select_yaw p t (vsub (desired_position p) (actual_position t))),
          PublishFeedback (actual_distance_to_goal t) (actual_speed t), Sleep]"
    using control_tick_events [of p t] by blast
  with assms show ?thesis by simp
qed

subsection \<open>Claims about the loop\<close>

text \<open>
  Claim C2, as the specification states it, fails. The goal condition is the condition
  of the \<^verbatim>\<open>while\<close> loop and the cancellation flag is tested inside its body, so
  the goal condition is tested first: on a first iteration that finds both the goal
  reached and the cancellation pending, the execution reports success.
\<close>

theorem cancel_first_counterexample:
  "onExecute (Plugin (Vector3d 10 0 0) 2 True False)
     [Tick True True (Vector3d 10 0 0) 0 True 0 0]
   = Some (Returned True [Succeed True, SendHover])"
  by (simp add: onExecute_def Tick_def)

text \<open>
  Claim C2, amended. On every iteration the goal condition is tested before the
  cancellation flag. When an iteration that the execution reaches (the loop is still
  running after the observations \<open>pre\<close>) finds the cancellation flag set, the
  execution ends there: if the goal condition does not hold, it reports the
  cancellation with failure, sends the hover command and returns false, and never
  reports success; if the goal condition holds as well, it reports success and sends
  the hover command.
\<close>

theorem goal_checked_before_cancel:
  assumes "onExecute p pre = None" and "is_canceling t"
  shows "\<exists>evs. Succeed True \<notin> set evs \<and> Canceled False \<notin> set evs \<and> SendHover \<notin> set evs
           \<and> onExecute p (pre @ t # rest) =
               Some (if checkGoalCondition t
                     then Returned True (evs @ [Succeed True, SendHover])
                     else Returned False
                            (evs @ [Canceled False, LogWarn ''Goal canceled'', SendHover]))"
proof -
  obtain evs where evs: "SendHover \<notin> set evs" "Succeed True \<notin> set evs"
      "Canceled False \<notin> set evs"
    and run: "\<And>ts. onExecute p (pre @ ts) = onExecute_loop p ts evs"
    using onExecute_running [OF assms(1)] by blast
  from run [of "t # rest"] assms(2)
  have "onExecute p (pre @ t # rest) =
               Some (if checkGoalCondition t
                     then Returned True (evs @ [Succeed True, SendHover])
                     else Returned False
                            (evs @ [Canceled False, LogWarn ''Goal canceled'', SendHover]))"
    by simp
  with evs show ?thesis by blast
qed

theorem goal_checked_before_cancel_witness:
  "onExecute (Plugin (Vector3d 10 0 0) 2 True False)
     [Tick False False (Vector3d 0 0 0) 0 True 10 0] = None
   \<and> is_canceling (Tick True True (Vector3d 10 0 0) 0 True 0 2)
   \<and> onExecute (Plugin (Vector3d 10 0 0) 2 True False)
       ([Tick False False (Vector3d 0 0 0) 0 True 10 0]
        @ Tick True True (Vector3d 10 0 0) 0 True 0 2 # [])
     = Some (Returned True
         [SendSpeedCommandWithYawAngle 2 0 0 0, PublishFeedback 10 0, Sleep,
          Succeed True, SendHover])
   \<and> is_canceling (Tick False True (Vector3d 1 0 0) 0 True 9 2)
   \<and> onExecute (Plugin (Vector3d 10 0 0) 2 True False)
       ([Tick False False (Vector3d 0 0 0) 0 True 10 0]
        @ Tick False True (Vector3d 1 0 0) 0 True 9 2 # [])
     = Some (Returned False
         [SendSpeedCommandWithYawAngle 2 0 0 0, PublishFeedback 10 0, Sleep,
          Canceled False, LogWarn ''Goal canceled'', SendHover])"
  using goal_checked_before_cancel [of "Plugin (Vector3d 10 0 0) 2 True False"
      "[Tick False False (Vector3d 0 0 0) 0 True 10 0]"
      "Tick True True (Vector3d 10 0 0) 0 True 0 2" "[]"]
    goal_checked_before_cancel [of "Plugin (Vector3d 10 0 0) 2 True False"
      "[Tick False False (Vector3d 0 0 0) 0 True 10 0]"
      "Tick False True (Vector3d 1 0 0) 0 True 9 2" "[]"]
  by (simp add: onExecute_def Plugin_def Tick_def control_tick_def select_yaw_def
      delimit_speed_def getValidSpeed_def vsub_def Vector3d_def
      to_double_numeral to_float_numeral)

text \<open>
  Claim C3, as the specification states it, fails. The motion handler rejects the
  command of the first iteration (\<open>send_ok\<close> is false); the loop goes on, sends a
  second speed command in the next iteration and ends with success when the goal is
  reached.
\<close>

theorem rejected_command_counterexample:
  "onExecute (Plugin (Vector3d 10 0 0) 2 True False)
     [Tick False False (Vector3d 0 0 0) 0 False 10 0,
      Tick False False (Vector3d 1 0 0) 0 True 9 2,
      Tick True False (Vector3d 10 0 0) 0 True 0 2]
   = Some (Returned True
       [SendSpeedCommandWithYawAngle 2 0 0 0, PublishFeedback 10 0, Sleep,
        SendSpeedCommandWithYawAngle 2 0 0 0, PublishFeedback 9 2, Sleep,
        Succeed True, SendHover])"
  by (simp add: onExecute_def Plugin_def Tick_def control_tick_def select_yaw_def
      delimit_speed_def getValidSpeed_def vsub_def Vector3d_def
      to_double_numeral to_float_numeral)

text \<open>
  Claim C3, amended. Whether the motion handler accepts a speed command has no effect
  on the execution: the code drops the value that \<^verbatim>\<open>sendSpeedCommandWithYawAngle\<close>
  returns. Let the execution reach an iteration \<open>t\<close> that goes on and whose command
  the handler rejects. The execution does not end at \<open>t\<close>: there is no aborted end
  and no hover command there. The iteration publishes its feedback and sleeps, and
  when the next iteration \<open>t'\<close> goes on as well it sends a further speed command and
  publishes its feedback; when the goal is reached at the iteration after that, the
  execution ends with success, the success report and one hover command following
  these events. The outcome is the one of the same observations with the command
  accepted. In general two executions whose observations differ only in what the
  handler answers have the same outcome, and an execution that ends does so either
  with the success report or with the cancellation report, each followed by the hover
  command.
\<close>

theorem send_result_ignored:
  assumes "onExecute p pre = None"
    and "\<not> checkGoalCondition t" and "\<not> is_canceling t" and "\<not> send_ok t"
    and "\<not> checkGoalCondition t'" and "\<not> is_canceling t'"
    and "checkGoalCondition t''"
  shows "\<exists>evs a b c y a' b' c' y'.
      SendHover \<notin> set evs \<and> (\<forall>r. Succeed r \<notin> set evs) \<and> (\<forall>r. Canceled r \<notin> set evs)
      \<and> control_tick p t =
           Inr [SendSpeedCommandWithYawAngle a b c y,
                PublishFeedback (actual_distance_to_goal t) (actual_speed t), Sleep]
      \<and> control_tick p t' =
           Inr [SendSpeedCommandWithYawAngle a' b' c' y',
                PublishFeedback (actual_distance_to_goal t') (actual_speed t'), Sleep]
      \<and> onExecute p (pre @ [t]) = None
      \<and> onExecute p (pre @ [t, t']) = None
      \<and> onExecute p (pre @ t # t' # t'' # rest) =
           Some (Returned True (evs @
             [SendSpeedCommandWithYawAngle a b c y,
              PublishFeedback (actual_distance_to_goal t) (actual_speed t), Sleep,
              SendSpeedCommandWithYawAngle a' b' c' y',
              PublishFeedback (actual_distance_to_goal t') (actual_speed t'), Sleep,
              Succeed True, SendHover]))
      \<and> onExecute p (pre @ t\<lparr>send_ok := True\<rparr> # t' # t'' # rest)
           = onExecute p (pre @ t # t' # t'' # rest)
      \<and> (\<forall>ts ts'. map (send_ok_update (\<lambda>_. True)) ts = map (send_ok_update (\<lambda>_. True)) ts'
            \<longrightarrow> onExecute p ts = onExecute p ts')
      \<and> (\<forall>ts out. onExecute p ts = Some out \<longrightarrow>
            (\<exists>es. out = Returned True (es @ [Succeed True, SendHover])
               \<or> out = Returned False
                    (es @ [Canceled False, LogWarn ''Goal canceled'', SendHover])))"
proof -
  obtain evs where evs: "SendHover \<notin> set evs" "\<forall>r. Succeed r \<notin> set evs"
      "\<forall>r. Canceled r \<notin> set evs"
    and run: "\<And>ts. onExecute p (pre @ ts) = onExecute_loop p ts evs"
    using onExecute_running_reports [OF assms(1)] by blast
  obtain a b c y where t: "control_tick p t =
       Inr [SendSpeedCommandWithYawAngle a b c y,
            PublishFeedback (actual_distance_to_goal t) (actual_speed t), Sleep]"
    and step: "\<And>ts tr. onExecute_loop p (t # ts) tr = onExecute_loop p ts (tr @
       [SendSpeedCommandWithYawAngle a b c y,
        PublishFeedback (actual_distance_to_goal t) (actual_speed t), Sleep])"
    using onExecute_loop_step [OF assms(2,3), of p] by blast
  obtain a' b' c' y' where t': "control_tick p t' =
       Inr [SendSpeedCommandWithYawAngle a' b' c' y',
            PublishFeedback (actual_distance_to_goal t') (actual_speed t'), Sleep]"
    and step': "\<And>ts tr. onExecute_loop p (t' # ts) tr = onExecute_loop p ts (tr @
       [SendSpeedCommandWithYawAngle a' b' c' y',
        PublishFeedback (actual_distance_to_goal t') (actual_speed t'), Sleep])"
    using onExecute_loop_step [OF assms(5,6), of p] by blast
  have one: "onExecute p (pre @ [t]) = None"
    unfolding run step by simp
  have two: "onExecute p (pre @ [t, t']) = None"
    unfolding run step step' by simp
  have three: "onExecute p (pre @ t # t' # t'' # rest) =
           Some (Returned True (evs @
             [SendSpeedCommandWithYawAngle a b c y,
              PublishFeedback (actual_distance_to_goal t) (actual_speed t), Sleep,
              SendSpeedCommandWithYawAngle a' b' c' y',
              PublishFeedback (actual_distance_to_goal t') (actual_speed t'), Sleep,
              Succeed True, SendHover]))"
    unfolding run step step' using assms(7) by simp
  have same: "onExecute p ts = onExecute p ts'"
    if "map (send_ok_update (\<lambda>_. True)) ts = map (send_ok_update (\<lambda>_. True)) ts'" for ts ts'
  proof -
    have "onExecute p ts = onExecute p (map (send_ok_update (\<lambda>_. True)) ts)"
      by (simp add: onExecute_def onExecute_loop_send_ok)
    also have "\<dots> = onExecute p (map (send_ok_update (\<lambda>_. True)) ts')"
      by (simp only: that)
    also have "\<dots> = onExecute p ts'"
      by (simp add: onExecute_def onExecute_loop_send_ok)
    finally show ?thesis .
  qed
  have accepted: "onExecute p (pre @ t\<lparr>send_ok := True\<rparr> # t' # t'' # rest)
           = onExecute p (pre @ t # t' # t'' # rest)"
    by (rule same) simp
  have ends: "\<exists>es. out = Returned True (es @ [Succeed True, SendHover])
            \<or> out = Returned False (es @ [Canceled False, LogWarn ''Goal canceled'', SendHover])"
    if "onExecute p ts = Some out" for ts out
    using that unfolding onExecute_def by (rule onExecute_loop_outcomes)
  from evs t t' one two three accepted same ends show ?thesis by blast
qed

theorem send_result_ignored_witness:
  "onExecute (Plugin (Vector3d 10 0 0) 2 True False)
     [Tick False False (Vector3d 0 0 0) 0 True 10 0] = None
   \<and> \<not> checkGoalCondition (Tick False False (Vector3d 1 0 0) 0 False 9 2)
   \<and> \<not> is_canceling (Tick False False (Vector3d 1 0 0) 0 False 9 2)
   \<and> \<not> send_ok (Tick False False (Vector3d 1 0 0) 0 False 9 2)
   \<and> \<not> checkGoalCondition (Tick False False (Vector3d 3 0 0) 0 True 7 2)
   \<and> \<not> is_canceling (Tick False False (Vector3d 3 0 0) 0 True 7 2)
   \<and> checkGoalCondition (Tick True False (Vector3d 10 0 0) 0 True 0 2)
   \<and> onExecute (Plugin (Vector3d 10 0 0) 2 True False)
       ([Tick False False (Vector3d 0 0 0) 0 True 10 0]
        @ Tick False False (Vector3d 1 0 0) 0 False 9 2
        # Tick False False (Vector3d 3 0 0) 0 True 7 2
        # Tick True False (Vector3d 10 0 0) 0 True 0 2 # [])
     = Some (Returned True
         [SendSpeedCommandWithYawAngle 2 0 0 0, PublishFeedback 10 0, Sleep,
          SendSpeedCommandWithYawAngle 2 0 0 0, PublishFeedback 9 2, Sleep,
          SendSpeedCommandWithYawAngle 2 0 0 0, PublishFeedback 7 2, Sleep,
          Succeed True, SendHover])"
  using send_result_ignored [of "Plugin (Vector3d 10 0 0) 2 True False"
      "[Tick False False (Vector3d 0 0 0) 0 True 10 0]"
      "Tick False False (Vector3d 1 0 0) 0 False 9 2"
      "Tick False False (Vector3d 3 0 0) 0 True 7 2"
      "Tick True False (Vector3d 10 0 0) 0 True 0 2" "[]"]
  by (simp add: onExecute_def Plugin_def Tick_def control_tick_def select_yaw_def
      delimit_speed_def getValidSpeed_def vsub_def Vector3d_def
      to_double_numeral to_float_numeral)

text \<open>
  Claim C7. When \<open>ignore_yaw\<close> is set, the heading chosen in an iteration is the
  actual yaw, whatever the position error, and it is the heading of the speed command
  the iteration sends; the angle towards the target is not used.
\<close>

theorem heading_held_when_yaw_ignored:
  assumes "ignore_yaw p"
  shows "select_yaw p t position_error = getActualYaw t
         \<and> (\<exists>a b c. control_tick p t =
               Inr [SendSpeedCommandWithYawAngle a b c (getActualYaw t),
                    PublishFeedback (actual_distance_to_goal t) (actual_speed t), Sleep])"
proof -
  have sel: "select_yaw p t e = getActualYaw t" for e
    using assms by (simp add: select_yaw_def)
  with control_tick_events [of p t] show ?thesis by simp
qed

text \<open>
  With the target straight along the first axis the angle towards it is 0; the
  command carries the actual yaw 1.
\<close>

theorem heading_held_when_yaw_ignored_witness:
  "ignore_yaw (Plugin (Vector3d 10 0 0) 2 True False)
   \<and> select_yaw (Plugin (Vector3d 10 0 0) 2 True False)
        (Tick False False (Vector3d 0 0 0) 1 True 10 0) (Vector3d 10 0 0) = 1
   \<and> getDesiredYawAngle (Vector3d 10 0 0) = 0
   \<and> control_tick (Plugin (Vector3d 10 0 0) 2 True False)
        (Tick False False (Vector3d 0 0 0) 1 True 10 0)
       = Inr [SendSpeedCommandWithYawAngle 2 0 0 1, PublishFeedback 10 0, Sleep]"
  using heading_held_when_yaw_ignored [of "Plugin (Vector3d 10 0 0) 2 True False"
      "Tick False False (Vector3d 0 0 0) 1 True 10 0" "Vector3d 10 0 0"]
  by (simp add: Plugin_def Tick_def control_tick_def select_yaw_def delimit_speed_def
      getValidSpeed_def vsub_def Vector3d_def getDesiredYawAngle_def atan2f_def atan2_def
      to_double_numeral to_float_numeral)

text \<open>
  Claim C8, as the specification states it, fails. The cancellation arrives during the
  first iteration; the second iteration finds the flag set, but also the goal reached,
  and the execution ends with success.
\<close>

theorem cancel_next_tick_counterexample:
  "onExecute (Plugin (Vector3d 10 0 0) 2 True False)
     [Tick False False (Vector3d 0 0 0) 0 True 10 0,
      Tick True True (Vector3d 10 0 0) 0 True 0 2]
   = Some (Returned True
       [SendSpeedCommandWithYawAngle 2 0 0 0, PublishFeedback 10 0, Sleep,
        Succeed True, SendHover])"
  by (simp add: onExecute_def Plugin_def Tick_def control_tick_def select_yaw_def
      delimit_speed_def getValidSpeed_def vsub_def Vector3d_def
      to_double_numeral to_float_numeral)

text \<open>
  Claim C8, amended. The loop is still running after the observations \<open>pre\<close>, a
  cancellation arrives during the last of them, and the iteration \<open>t\<close> that
  follows has the flag set. If the goal condition does not hold at that iteration,
  the cancellation is seen there: the execution returns false, the result it reports
  is the cancellation with success false, and no success is reported at all; its
  events are those of the iterations before, none of them a report or a hover
  command, followed by the cancellation report, the warning and one hover command.
\<close>

theorem cancel_observed_next_tick:
  assumes "onExecute p pre = None" and "is_canceling t" and "\<not> checkGoalCondition t"
  shows "\<exists>evs tr. tr = evs @ [Canceled False, LogWarn ''Goal canceled'', SendHover]
           \<and> SendHover \<notin> set evs \<and> (\<forall>r. Succeed r \<notin> set evs) \<and> (\<forall>r. Canceled r \<notin> set evs)
           \<and> onExecute p (pre @ t # rest) = Some (Returned False tr)
           \<and> Canceled False \<in> set tr \<and> (\<forall>r. Succeed r \<notin> set tr)
           \<and> count_list tr SendHover = 1 \<and> last tr = SendHover"
proof -
  obtain evs where evs: "SendHover \<notin> set evs" "\<forall>r. Succeed r \<notin> set evs"
      "\<forall>r. Canceled r \<notin> set evs"
    and run: "\<And>ts. onExecute p (pre @ ts) = onExecute_loop p ts evs"
    using onExecute_running_reports [OF assms(1)] by blast
  let ?tr = "evs @ [Canceled False, LogWarn ''Goal canceled'', SendHover]"
  from run [of "t # rest"] assms(2,3)
  have "onExecute p (pre @ t # rest) = Some (Returned False ?tr)" by simp
  moreover from evs(1) have "count_list ?tr SendHover = 1" by simp
  moreover have "last ?tr = SendHover" by simp
  moreover have "Canceled False \<in> set ?tr" by simp
  moreover from evs(2) have "\<forall>r. Succeed r \<notin> set ?tr" by simp
  ultimately show ?thesis using evs by blast
qed

theorem cancel_observed_next_tick_witness:
  "onExecute (Plugin (Vector3d 10 0 0) 2 True False)
     [Tick False False (Vector3d 0 0 0) 0 True 10 0] = None
   \<and> is_canceling (Tick False True (Vector3d 1 0 0) 0 True 9 2)
   \<and> \<not> checkGoalCondition (Tick False True (Vector3d 1 0 0) 0 True 9 2)
   \<and> onExecute (Plugin (Vector3d 10 0 0) 2 True False)
       ([Tick False False (Vector3d 0 0 0) 0 True 10 0]
        @ Tick False True (Vector3d 1 0 0) 0 True 9 2
        # [Tick False True (Vector3d 2 0 0) 0 True 8 2])
     = Some (Returned False
         [SendSpeedCommandWithYawAngle 2 0 0 0, PublishFeedback 10 0, Sleep,
          Canceled False, LogWarn ''Goal canceled'', SendHover])"
  using cancel_observed_next_tick [of "Plugin (Vector3d 10 0 0) 2 True False"
      "[Tick False False (Vector3d 0 0 0) 0 True 10 0]"
      "Tick False True (Vector3d 1 0 0) 0 True 9 2"
      "[Tick False True (Vector3d 2 0 0) 0 True 8 2]"]
  by (simp add: onExecute_def Plugin_def Tick_def control_tick_def select_yaw_def
      delimit_speed_def getValidSpeed_def vsub_def Vector3d_def
      to_double_numeral to_float_numeral)

text \<open>
  Claim C9. When an iteration that the execution reaches finds the goal condition
  true and no cancellation pending, the execution ends there with success: its events
  hold exactly one hover command, the success report is followed by the hover command
  only, and the observations after this iteration are not read, so no speed command
  follows.
\<close>

theorem goal_reached_succeeds:
  assumes "onExecute p pre = None" and "checkGoalCondition t" and "\<not> is_canceling t"
  shows "\<exists>tr. onExecute p (pre @ t # rest) = Some (Returned True tr)
           \<and> count_list tr SendHover = 1
           \<and> dropWhile (\<lambda>e. e \<noteq> Succeed True) tr = [Succeed True, SendHover]
           \<and> onExecute p (pre @ [t]) = Some (Returned True tr)"
proof -
  obtain evs where evs: "SendHover \<notin> set evs" "Succeed True \<notin> set evs"
      "Canceled False \<notin> set evs"
    and run: "\<And>ts. onExecute p (pre @ ts) = onExecute_loop p ts evs"
    using onExecute_running [OF assms(1)] by blast
  let ?tr = "evs @ [Succeed True, SendHover]"
  from run [of "t # rest"] assms(2)
  have "onExecute p (pre @ t # rest) = Some (Returned True ?tr)" by simp
  moreover from run [of "[t]"] assms(2)
  have "onExecute p (pre @ [t]) = Some (Returned True ?tr)" by simp
  moreover from evs(1) have "count_list ?tr SendHover = 1" by simp
  moreover have "dropWhile (\<lambda>e. e \<noteq> Succeed True) ?tr = [Succeed True, SendHover]"
  proof -
    have "dropWhile (\<lambda>e. e \<noteq> Succeed True) ?tr
          = dropWhile (\<lambda>e. e \<noteq> Succeed True) [Succeed True, SendHover]"
      using evs(2) by (intro dropWhile_append2) auto
    then show ?thesis by simp
  qed
  ultimately show ?thesis by blast
qed

theorem goal_reached_succeeds_witness:
  "onExecute (Plugin (Vector3d 10 0 0) 2 True False)
     [Tick False False (Vector3d 0 0 0) 0 True 10 0] = None
   \<and> checkGoalCondition (Tick True False (Vector3d 10 0 0) 0 True 0 2)
   \<and> \<not> is_canceling (Tick True False (Vector3d 10 0 0) 0 True 0 2)
   \<and> onExecute (Plugin (Vector3d 10 0 0) 2 True False)
       ([Tick False False (Vector3d 0 0 0) 0 True 10 0]
        @ Tick True False (Vector3d 10 0 0) 0 True 0 2
        # [Tick False False (Vector3d 11 0 0) 0 True 1 2])
     = Some (Returned True
         [SendSpeedCommandWithYawAngle 2 0 0 0, PublishFeedback 10 0, Sleep,
          Succeed True, SendHover])"
  using goal_reached_succeeds [of "Plugin (Vector3d 10 0 0) 2 True False"
      "[Tick False False (Vector3d 0 0 0) 0 True 10 0]"
      "Tick True False (Vector3d 10 0 0) 0 True 0 2"
      "[Tick False False (Vector3d 11 0 0) 0 True 1 2]"]
  by (simp add: onExecute_def Plugin_def Tick_def control_tick_def select_yaw_def
      delimit_speed_def getValidSpeed_def vsub_def Vector3d_def
      to_double_numeral to_float_numeral)

end
